theory Spec2Isabelle
  imports Complex_Main "HOL-Library.AList" "HOL-Library.Sublist"
begin

section \<open>Python values, exceptions and the world the script runs in\<close>

text \<open>
  The script \<^verbatim>\<open>awebb_analytics.py\<close> fetches four datasets over HTTP, saves each under
  \<^verbatim>\<open>data/\<close> and writes one report per dataset. Its effects are modelled by explicit
  state passing over a \<open>world\<close>: the files (path to content) and the console. A third
  field, \<open>calls\<close>, is a ghost trace that records which of the script's functions ran, in
  order; no function reads it.

  Text is a list of 8-bit characters, read as code points below 256. Exceptions are
  values; a computation either returns a value or raises, and in both cases hands on the
  world it left behind.

  Not modelled: the creation of the directory \<open>data\<close> (lines 22 and 240), the encoding of
  text on disk, and the translation of line endings on writing, which is the identity on POSIX.
\<close>

datatype exn =
    RequestException string
  | OSError string
  | ValueError string
  | TypeError string
  | AttributeError string

fun str_exn :: "exn \<Rightarrow> string" where
  "str_exn (RequestException m) = m"
| "str_exn (OSError m) = m"
| "str_exn (ValueError m) = m"
| "str_exn (TypeError m) = m"
| "str_exn (AttributeError m) = m"

datatype stage = Fetcher | Writer | Summarizer

datatype dataset = Text | CSV | Spreadsheet | JSON

record world =
  files :: "string \<rightharpoonup> string"
  stdout :: "string list"
  calls :: "(stage \<times> dataset) list"

datatype 'a result = Return 'a world | Raise exn world

fun world_of :: "'a result \<Rightarrow> world" where
  "world_of (Return a w) = w"
| "world_of (Raise e w) = w"

fun raised :: "'a result \<Rightarrow> bool" where
  "raised (Return a w) = False"
| "raised (Raise e w) = True"

text \<open>Sequencing of two statements: an exception of the first skips the second.\<close>

definition and_then :: "(world \<Rightarrow> 'a result) \<Rightarrow> ('a \<Rightarrow> world \<Rightarrow> 'b result) \<Rightarrow> world \<Rightarrow> 'b result" where
  "and_then m f w = (case m w of Raise e w' \<Rightarrow> Raise e w' | Return a w' \<Rightarrow> f a w')"

text \<open>\<^verbatim>\<open>try: ... except Exception as e: handler\<close>\<close>

definition try_except :: "(world \<Rightarrow> 'a result) \<Rightarrow> (exn \<Rightarrow> world \<Rightarrow> 'a result) \<Rightarrow> world \<Rightarrow> 'a result" where
  "try_except m handler w = (case m w of Raise e w' \<Rightarrow> handler e w' | Return a w' \<Rightarrow> Return a w')"

definition print_line :: "string \<Rightarrow> world \<Rightarrow> world" where
  "print_line s w = w\<lparr>stdout := stdout w @ [s]\<rparr>"

definition called :: "stage \<Rightarrow> dataset \<Rightarrow> world \<Rightarrow> world" where
  "called st d w = w\<lparr>calls := calls w @ [(st, d)]\<rparr>"

subsection \<open>Decimal rendering of integers\<close>

definition digit_char :: "nat \<Rightarrow> char" where
  "digit_char d = ''0123456789'' ! d"

function str_nat :: "nat \<Rightarrow> string" where
  "str_nat n = (if n < 10 then [digit_char n] else str_nat (n div 10) @ [digit_char (n mod 10)])"
  by pat_completeness auto
termination
  by (relation "measure id") auto

declare str_nat.simps [simp del]

definition str_int :: "int \<Rightarrow> string" where
  "str_int i = (if i < 0 then ''-'' @ str_nat (nat (- i)) else str_nat (nat i))"

definition quoted :: "string \<Rightarrow> string" where
  "quoted s = [CHR 0x27] @ s @ [CHR 0x27]"

subsection \<open>Decoded JSON values\<close>

datatype json =
    JNull
  | JBool bool
  | JInt int
  | JFloat real
  | JStr string
  | JArr "json list"
  | JObj "(string \<times> json) list"

text \<open>Python's truth value of a decoded JSON value (\<^verbatim>\<open>if json_content:\<close>).\<close>

fun truthy :: "json \<Rightarrow> bool" where
  "truthy JNull = False"
| "truthy (JBool b) = b"
| "truthy (JInt i) = (i \<noteq> 0)"
| "truthy (JFloat x) = (x \<noteq> 0)"
| "truthy (JStr s) = (s \<noteq> [])"
| "truthy (JArr xs) = (xs \<noteq> [])"
| "truthy (JObj kvs) = (kvs \<noteq> [])"

fun type_name :: "json \<Rightarrow> string" where
  "type_name JNull = ''NoneType''"
| "type_name (JBool b) = ''bool''"
| "type_name (JInt i) = ''int''"
| "type_name (JFloat x) = ''float''"
| "type_name (JStr s) = ''str''"
| "type_name (JArr xs) = ''list''"
| "type_name (JObj kvs) = ''dict''"

text \<open>\<^verbatim>\<open>len(data)\<close>: defined on strings, lists and dicts, a TypeError elsewhere.\<close>

fun py_len :: "json \<Rightarrow> exn + nat" where
  "py_len (JStr s) = Inr (length s)"
| "py_len (JArr xs) = Inr (length xs)"
| "py_len (JObj kvs) = Inr (length kvs)"
| "py_len v = Inl (TypeError (''object of type '' @ quoted (type_name v) @ '' has no len()''))"

text \<open>\<^verbatim>\<open>data.items()\<close>: only a dict has the attribute.\<close>

fun items :: "json \<Rightarrow> exn + (string \<times> json) list" where
  "items (JObj kvs) = Inr kvs"
| "items v = Inl (AttributeError (quoted (type_name v) @ '' object has no attribute '' @ quoted ''items''))"

fun is_mapping :: "json \<Rightarrow> bool" where
  "is_mapping (JObj kvs) = True"
| "is_mapping v = False"

subsection \<open>Tables\<close>

text \<open>
  A table has named columns and rows of cells. A cell is its text as written, or \<open>None\<close>
  for a missing value.
\<close>

type_synonym cell = "string option"

text \<open>
  What the numeric parse of a cell yields: an integer or a float. A statistic of a column is
  NaN, an integer or a float; Python prints the three differently.
\<close>

datatype number = IntN int | FloatN real

fun real_of_number :: "number \<Rightarrow> real" where
  "real_of_number (IntN i) = of_int i"
| "real_of_number (FloatN x) = x"

datatype stat = NaN | IntStat int | FloatStat real

fun stat_value :: "stat \<Rightarrow> real option" where
  "stat_value NaN = None"
| "stat_value (IntStat i) = Some (of_int i)"
| "stat_value (FloatStat x) = Some x"

record dataframe =
  columns :: "string list"
  rows :: "cell list list"

subsection \<open>The environment\<close>

text \<open>
  Everything the script asks of the outside: the network, the file system's refusals, and
  the library operations whose results the script only passes on (number and value
  rendering, JSON text, the spreadsheet parser, the numeric parse of a cell). They are
  parameters of the model; every theorem holds for all of them.
\<close>

record response =
  status_code :: int
  resp_text :: string
  resp_content :: string
  resp_json :: "exn + json"

record env =
  project_path :: string
  http_get :: "string \<Rightarrow> exn + response"
  open_w :: "string \<Rightarrow> exn option"
  json_dumps :: "json \<Rightarrow> string"
  json_loads :: "string \<Rightarrow> exn + json"
  str_json :: "json \<Rightarrow> string"
  read_excel :: "string \<Rightarrow> exn + dataframe"
  parse_number :: "string \<Rightarrow> number option"
  str_float :: "real \<Rightarrow> string"
  str_tuple :: "cell list \<Rightarrow> string"

section \<open>Files\<close>

definition join_path :: "string \<Rightarrow> string \<Rightarrow> string" where
  "join_path folder name = folder @ ''/'' @ name"

text \<open>
  \<open>data_path.joinpath(filename)\<close> and \<open>pathlib.Path('data') / filename\<close> name the same
  file, since \<open>data_path\<close> is \<open>data\<close> under the working directory; files are keyed by the
  relative path, and the absolute one only appears in the messages.
\<close>

definition data_file :: "string \<Rightarrow> string" where
  "data_file filename = join_path ''data'' filename"

definition data_path :: "env \<Rightarrow> string \<Rightarrow> string" where
  "data_path env filename = join_path (join_path (project_path env) ''data'') filename"

text \<open>Opening for writing truncates the file, unless the file system refuses.\<close>

definition open_write :: "env \<Rightarrow> string \<Rightarrow> world \<Rightarrow> unit result" where
  "open_write env path w =
     (case open_w env path of
        Some e \<Rightarrow> Raise e w
      | None \<Rightarrow> Return () (w\<lparr>files := (files w)(path \<mapsto> [])\<rparr>))"

definition file_write :: "string \<Rightarrow> string \<Rightarrow> world \<Rightarrow> world" where
  "file_write path s w =
     w\<lparr>files := (files w)(path \<mapsto> (case files w path of None \<Rightarrow> s | Some old \<Rightarrow> old @ s))\<rparr>"

definition read_bytes :: "string \<Rightarrow> world \<Rightarrow> string result" where
  "read_bytes path w =
     (case files w path of
        None \<Rightarrow> Raise (OSError (''[Errno 2] No such file or directory: '' @ quoted path)) w
      | Some s \<Rightarrow> Return s w)"

text \<open>
  Reading in text mode translates the line endings CR LF and CR to LF (Python's universal
  newlines).
\<close>

fun universal_newlines :: "string \<Rightarrow> string" where
  "universal_newlines [] = []"
| "universal_newlines (c # cs) =
     (if c = CHR 0x0D then
        (case cs of
           d # ds \<Rightarrow> if d = CHR 0x0A then CHR 0x0A # universal_newlines ds
                     else CHR 0x0A # universal_newlines cs
         | [] \<Rightarrow> [CHR 0x0A])
      else c # universal_newlines cs)"

definition read_text :: "string \<Rightarrow> world \<Rightarrow> string result" where
  "read_text path = and_then (read_bytes path) (\<lambda>s. Return (universal_newlines s))"

section \<open>Fetch functions\<close>

definition fetch_txt_data :: "env \<Rightarrow> string \<Rightarrow> world \<Rightarrow> string option result" where
  "fetch_txt_data env url w0 =
     (let w = called Fetcher Text w0 in
      case http_get env url of
        Inl e \<Rightarrow> Raise e w
      | Inr response \<Rightarrow>
          if status_code response = 200 then Return (Some (resp_text response)) w
          else Return None
                 (print_line (''Failed to fetch text data: '' @ str_int (status_code response)) w))"

definition fetch_csv_data :: "env \<Rightarrow> string \<Rightarrow> world \<Rightarrow> string option result" where
  "fetch_csv_data env url w0 =
     (let w = called Fetcher CSV w0 in
      case http_get env url of
        Inl e \<Rightarrow> Raise e w
      | Inr response \<Rightarrow>
          if status_code response = 200 then Return (Some (resp_text response)) w
          else Return None
                 (print_line (''Failed to fetch CSV data: '' @ str_int (status_code response)) w))"

definition fetch_json_data :: "env \<Rightarrow> string \<Rightarrow> world \<Rightarrow> json option result" where
  "fetch_json_data env url w0 =
     (let w = called Fetcher JSON w0 in
      case http_get env url of
        Inl e \<Rightarrow> Raise e w
      | Inr response \<Rightarrow>
          if status_code response = 200 then
            (case resp_json response of Inl e \<Rightarrow> Raise e w | Inr v \<Rightarrow> Return (Some v) w)
          else Return None
                 (print_line (''Failed to fetch JSON data: '' @ str_int (status_code response)) w))"

definition fetch_excel_data :: "env \<Rightarrow> string \<Rightarrow> world \<Rightarrow> string option result" where
  "fetch_excel_data env url w0 =
     (let w = called Fetcher Spreadsheet w0 in
      case http_get env url of
        Inl e \<Rightarrow> Raise e w
      | Inr response \<Rightarrow>
          if status_code response = 200 then Return (Some (resp_content response)) w
          else Return None
                 (print_line (''Failed to fetch Excel data: '' @ str_int (status_code response)) w))"

section \<open>The text summarizer\<close>

text \<open>
  \<open>str.split()\<close> with no argument: the maximal runs of non-whitespace characters.
  Whitespace is what \<open>str.isspace\<close> accepts below code point 256.
\<close>

definition is_space :: "char \<Rightarrow> bool" where
  "is_space c = (c \<in> set [CHR 0x09, CHR 0x0A, CHR 0x0B, CHR 0x0C, CHR 0x0D, CHR 0x1C, CHR 0x1D,
                          CHR 0x1E, CHR 0x1F, CHR 0x20, CHR 0x85, CHR 0xA0])"

function split :: "string \<Rightarrow> string list" where
  "split s =
     (case dropWhile is_space s of
        [] \<Rightarrow> []
      | c # cs \<Rightarrow> (c # takeWhile (\<lambda>x. \<not> is_space x) cs) # split (dropWhile (\<lambda>x. \<not> is_space x) cs))"
  by pat_completeness auto
termination
proof (relation "measure length")
  show "wf (measure length)" by simp
next
  fix s :: string and c cs
  assume a: "dropWhile is_space s = c # cs"
  have "length (dropWhile (\<lambda>x. \<not> is_space x) cs) \<le> length cs"
    by (rule length_dropWhile_le)
  moreover have "length (c # cs) \<le> length s"
    using length_dropWhile_le [of is_space s] a by simp
  ultimately show "(dropWhile (\<lambda>x. \<not> is_space x) cs, s) \<in> measure length"
    by simp
qed

declare split.simps [simp del]

text \<open>
  A Python dict as an association list in insertion order: \<open>AList.update\<close> replaces the
  value of a present key in place and appends an absent one.
\<close>

definition dict_get :: "('k \<times> 'v) list \<Rightarrow> 'k \<Rightarrow> 'v \<Rightarrow> 'v" where
  "dict_get d k dflt = (case map_of d k of None \<Rightarrow> dflt | Some v \<Rightarrow> v)"

text \<open>\<^verbatim>\<open>word_freq[word] = word_freq.get(word, 0) + 1\<close>, and the loop over the words.\<close>

definition count_step :: "string \<Rightarrow> (string \<times> nat) list \<Rightarrow> (string \<times> nat) list" where
  "count_step word word_freq = AList.update word (dict_get word_freq word 0 + 1) word_freq"

definition count_words :: "string list \<Rightarrow> (string \<times> nat) list" where
  "count_words words = fold count_step words []"

text \<open>The distinct elements of a list, each at its first occurrence.\<close>

fun first_seen :: "'a list \<Rightarrow> 'a list" where
  "first_seen [] = []"
| "first_seen (x # xs) = x # filter (\<lambda>y. y \<noteq> x) (first_seen xs)"

definition process_text_data :: "env \<Rightarrow> string \<Rightarrow> string \<Rightarrow> string \<Rightarrow> world \<Rightarrow> unit result" where
  "process_text_data env folder_name filename processed_filename w0 =
     (let input_file_path = join_path folder_name filename;
          output_file_path = join_path folder_name processed_filename
      in try_except
           (and_then (read_text input_file_path) (\<lambda>txt.
              let words = split txt;
                  unique_words = set words;
                  word_freq = count_words words;
                  total_words = length words;
                  unique_word_count = card unique_words
              in and_then (open_write env output_file_path) (\<lambda>_ w.
                   Return ()
                     (print_line (''Text data processed and saved to '' @ output_file_path)
                        (fold (\<lambda>(word, freq). file_write output_file_path
                                  (word @ '': '' @ str_nat freq @ ''\<newline>''))
                           word_freq
                           (file_write output_file_path ''Word frequencies:\<newline>''
                              (file_write output_file_path
                                 (''Unique words: '' @ str_nat unique_word_count @ ''\<newline>'')
                                 (file_write output_file_path
                                    (''Total words: '' @ str_nat total_words @ ''\<newline>'')
                                    w))))))))
           (\<lambda>e w. Return () (print_line (''Error processing text data: '' @ str_exn e) w))
           (called Summarizer Text w0))"

section \<open>Tables: parsing, typing and statistics\<close>

text \<open>
  The script leaves the parsing, typing and statistics of tables to pandas, which is not
  under src/. The definitions of this section that stand for pandas are modelled from the
  spec's words, each marked so; the rest of the file is translated from the script.
\<close>

text \<open>Modelled from the spec: the pieces of a text between occurrences of a separator, for
  "comma-delimited" rows and for lines; pandas' tokenizer is not under src/. The model
  knows no quoting.\<close>

fun split_on :: "char \<Rightarrow> string \<Rightarrow> string list" where
  "split_on c [] = [[]]"
| "split_on c (x # xs) =
     (if x = c then [] # split_on c xs
      else (case split_on c xs of f # fs \<Rightarrow> (x # f) # fs | [] \<Rightarrow> [[x]]))"

text \<open>Modelled from the spec: fields joined by the separator, the inverse of \<open>split_on\<close>;
  pandas' writer is not under src/.\<close>

fun join_with :: "char \<Rightarrow> string list \<Rightarrow> string" where
  "join_with c [] = []"
| "join_with c [f] = f"
| "join_with c (f # g # fs) = f @ c # join_with c (g # fs)"

text \<open>Modelled from the spec: the lines of a CSV text, a final newline ending the last line;
  pandas' reader is not under src/.\<close>

definition text_lines :: "string \<Rightarrow> string list" where
  "text_lines s = (let ps = split_on CHR 0x0A s in if last ps = [] then butlast ps else ps)"

text \<open>Modelled from the spec: an empty field is a null value, and is written back as an empty
  field; pandas' handling of missing values is not under src/.\<close>

definition cell_of :: "string \<Rightarrow> cell" where
  "cell_of s = (if s = [] then None else Some s)"

definition cell_text :: "cell \<Rightarrow> string" where
  "cell_text c = (case c of None \<Rightarrow> [] | Some s \<Rightarrow> s)"

text \<open>Modelled from the spec: \<^verbatim>\<open>pd.read_csv\<close> is not under src/. The spec's words: "parse
  content into a table (first row = header ...)". Content without a line has no columns,
  which is an error.\<close>

definition read_csv :: "string \<Rightarrow> exn + dataframe" where
  "read_csv content =
     (case text_lines content of
        [] \<Rightarrow> Inl (ValueError ''No columns to parse from file'')
      | header # body \<Rightarrow>
          Inr \<lparr>columns = split_on CHR '','' header,
               rows = map (\<lambda>l. map cell_of (split_on CHR '','' l)) body\<rparr>)"

text \<open>Modelled from the spec: \<^verbatim>\<open>DataFrame.to_csv(index=False)\<close> is not under src/. The
  spec's words: "serialize canonically (comma-delimited, header row, no index column)".\<close>

definition to_csv :: "dataframe \<Rightarrow> string" where
  "to_csv df =
     concat (map (\<lambda>fields. join_with CHR '','' fields @ ''\<newline>'')
               (columns df # map (map cell_text) (rows df)))"

text \<open>Modelled from the spec: the table column by column ("named columns"); pandas' frame
  is not under src/. A row too short for a column has a null value there.\<close>

definition cell_at :: "cell list \<Rightarrow> nat \<Rightarrow> cell" where
  "cell_at r i = (if i < length r then r ! i else None)"

definition columns_of :: "dataframe \<Rightarrow> (string \<times> cell list) list" where
  "columns_of df =
     map (\<lambda>(i, name). (name, map (\<lambda>r. cell_at r i) (rows df))) (enumerate 0 (columns df))"

text \<open>Modelled from the spec: \<^verbatim>\<open>df[column]\<close>, the values of a named column; pandas'
  indexing is not under src/.\<close>

definition get_column :: "dataframe \<Rightarrow> string \<Rightarrow> cell list" where
  "get_column df name = (case map_of (columns_of df) name of None \<Rightarrow> [] | Some col \<Rightarrow> col)"

text \<open>Modelled from the spec: whether a value counts for a numeric column; pandas' type
  inference is not under src/. A null value does not count against the column; the numeric
  parse itself is the environment's.\<close>

definition parses :: "env \<Rightarrow> cell \<Rightarrow> bool" where
  "parses env c = (case c of None \<Rightarrow> True | Some s \<Rightarrow> parse_number env s \<noteq> None)"

text \<open>Modelled from the spec: pandas' column typing is not under src/. The spec's words: "a
  column is numeric iff every non-null value parses as a number".\<close>

definition is_numeric :: "env \<Rightarrow> cell list \<Rightarrow> bool" where
  "is_numeric env col = list_all (parses env) col"

text \<open>Modelled from the spec: \<^verbatim>\<open>df.select_dtypes(include=['number']).columns\<close> is not
  under src/; the names of the numeric columns, in table order.\<close>

definition select_dtypes_number :: "env \<Rightarrow> dataframe \<Rightarrow> string list" where
  "select_dtypes_number env df =
     map fst (filter (\<lambda>(name, col). is_numeric env col) (columns_of df))"

text \<open>Modelled from the spec: the numbers of a column, its null values skipped, as the
  statistics of pandas (not under src/) see them.\<close>

definition numbers :: "env \<Rightarrow> cell list \<Rightarrow> real list" where
  "numbers env col =
     List.map_filter
       (\<lambda>c. case c of None \<Rightarrow> None | Some s \<Rightarrow> map_option real_of_number (parse_number env s)) col"

text \<open>Modelled from the spec: pandas' column typing is not under src/, and the spec does not
  say how it tells integers from floats. A column is an integer column when it has no null
  value and every value parses as an integer; any other numeric column is a float column.\<close>

definition integer_column :: "env \<Rightarrow> cell list \<Rightarrow> bool" where
  "integer_column env col =
     list_all (\<lambda>c. case c of
                    None \<Rightarrow> False
                  | Some s \<Rightarrow> (case parse_number env s of Some (IntN i) \<Rightarrow> True | _ \<Rightarrow> False)) col"

text \<open>
  The statistics are over exact reals, with \<open>None\<close> for NaN; the rounding of machine
  floating point is not modelled.
\<close>

text \<open>Modelled from the spec: \<^verbatim>\<open>Series.mean\<close> is not under src/. The spec's words:
  "arithmetic mean".\<close>

definition mean :: "real list \<Rightarrow> real option" where
  "mean xs = (if xs = [] then None else Some (sum_list xs / real (length xs)))"

text \<open>Modelled from the spec: \<^verbatim>\<open>Series.median\<close> is not under src/. The spec's words:
  "median (standard definition: average of two middle values for even counts)".\<close>

definition median :: "real list \<Rightarrow> real option" where
  "median xs =
     (if xs = [] then None
      else let s = sort xs; n = length s
           in Some (if odd n then s ! (n div 2) else (s ! (n div 2 - 1) + s ! (n div 2)) / 2))"

text \<open>Modelled from the spec: \<^verbatim>\<open>Series.std\<close> is not under src/. The spec's words:
  "sample standard deviation (N-1 denominator; NaN/undefined if fewer than 2 values ...)".\<close>

definition std :: "real list \<Rightarrow> real option" where
  "std xs =
     (if length xs < 2 then None
      else let m = sum_list xs / real (length xs)
           in Some (sqrt (sum_list (map (\<lambda>x. (x - m)\<^sup>2) xs) / real (length xs - 1))))"

text \<open>Modelled from the spec: \<^verbatim>\<open>Series.max\<close> is not under src/. The spec's word: "max".\<close>

fun maximum :: "real list \<Rightarrow> real option" where
  "maximum [] = None"
| "maximum (x # xs) = Some (fold max xs x)"

text \<open>Modelled from the spec: \<^verbatim>\<open>Series.min\<close> is not under src/. The spec's word: "min".\<close>

fun minimum :: "real list \<Rightarrow> real option" where
  "minimum [] = None"
| "minimum (x # xs) = Some (fold min xs x)"

text \<open>Modelled from the spec: the kind of value a statistic of pandas (not under src/) is,
  on which the spec is silent. Mean, median and standard deviation are floats or NaN; the
  max and min of an integer column are integers, those of a float column floats.\<close>

definition float_stat :: "real option \<Rightarrow> stat" where
  "float_stat v = (case v of None \<Rightarrow> NaN | Some x \<Rightarrow> FloatStat x)"

definition extreme_stat :: "env \<Rightarrow> cell list \<Rightarrow> real option \<Rightarrow> stat" where
  "extreme_stat env col v =
     (case v of
        None \<Rightarrow> NaN
      | Some x \<Rightarrow> if integer_column env col then IntStat \<lfloor>x\<rfloor> else FloatStat x)"

text \<open>The five metrics of lines 153-159 and 215-221, a dict in insertion order.\<close>

definition metrics :: "env \<Rightarrow> cell list \<Rightarrow> (string \<times> stat) list" where
  "metrics env col =
     [(''Mean'', float_stat (mean (numbers env col))),
      (''Median'', float_stat (median (numbers env col))),
      (''Standard Deviation'', float_stat (std (numbers env col))),
      (''Max'', extreme_stat env col (maximum (numbers env col))),
      (''Min'', extreme_stat env col (minimum (numbers env col)))]"

text \<open>
  The loop of lines 151-159, which lines 213-221 repeat statement for statement:
  \<^verbatim>\<open>stats[column] = {...}\<close> for each numeric column.
\<close>

definition compute_stats :: "env \<Rightarrow> dataframe \<Rightarrow> (string \<times> (string \<times> stat) list) list" where
  "compute_stats env df =
     fold (\<lambda>column stats. AList.update column (metrics env (get_column df column)) stats)
       (select_dtypes_number env df) []"

text \<open>\<^verbatim>\<open>f"{value}"\<close> of a statistic: NaN prints as \<open>nan\<close>, an integer in decimal digits
  (\<open>5\<close>), a float as the environment renders floats (\<open>5.0\<close>).\<close>

definition str_stat :: "env \<Rightarrow> stat \<Rightarrow> string" where
  "str_stat env v =
     (case v of NaN \<Rightarrow> ''nan'' | IntStat i \<Rightarrow> str_int i | FloatStat x \<Rightarrow> str_float env x)"

section \<open>The CSV, JSON and spreadsheet summarizers\<close>

definition write_metrics :: "env \<Rightarrow> string \<Rightarrow> (string \<times> stat) list \<Rightarrow> world \<Rightarrow> world" where
  "write_metrics env path ms =
     fold (\<lambda>(key, v). file_write path (key @ '': '' @ str_stat env v @ ''\<newline>'')) ms"

definition lift_exn :: "exn + 'a \<Rightarrow> world \<Rightarrow> 'a result" where
  "lift_exn r w = (case r of Inl e \<Rightarrow> Raise e w | Inr a \<Rightarrow> Return a w)"

definition process_csv_data :: "env \<Rightarrow> string \<Rightarrow> string \<Rightarrow> string \<Rightarrow> world \<Rightarrow> unit result" where
  "process_csv_data env folder_name filename processed_filename w0 =
     (let input_file_path = join_path folder_name filename;
          output_file_path = join_path folder_name processed_filename
      in try_except
           (and_then (read_bytes input_file_path) (\<lambda>content.
            and_then (lift_exn (read_csv content)) (\<lambda>df.
              let rows_as_tuples = rows df;
                  stats = compute_stats env df
              in and_then (open_write env output_file_path) (\<lambda>_ w.
                   Return ()
                     (print_line (''CSV data processed and saved to '' @ output_file_path)
                        (fold (\<lambda>(column, ms) w.
                                  write_metrics env output_file_path ms
                                    (file_write output_file_path (''\<newline>'' @ column @ '':\<newline>'') w))
                           stats
                           (file_write output_file_path ''\<newline>Statistics for numeric columns:\<newline>''
                              (fold (\<lambda>row. file_write output_file_path (str_tuple env row @ ''\<newline>''))
                                 rows_as_tuples
                                 (file_write output_file_path ''Rows as tuples:\<newline>'' w)))))))))
           (\<lambda>e w. Return () (print_line (''Error processing CSV data: '' @ str_exn e) w))
           (called Summarizer CSV w0))"

definition process_json_data :: "env \<Rightarrow> string \<Rightarrow> string \<Rightarrow> string \<Rightarrow> world \<Rightarrow> unit result" where
  "process_json_data env folder_name filename processed_filename w0 =
     (let input_file_path = join_path folder_name filename;
          output_file_path = join_path folder_name processed_filename
      in try_except
           (and_then (read_text input_file_path) (\<lambda>content.
            and_then (lift_exn (json_loads env content)) (\<lambda>data.
            and_then (lift_exn (py_len data)) (\<lambda>item_count.
            and_then (open_write env output_file_path) (\<lambda>_ w.
              let w1 = file_write output_file_path (''Item count: '' @ str_nat item_count @ ''\<newline>'') w;
                  w2 = file_write output_file_path ''JSON data summary:\<newline>'' w1
              in and_then (lift_exn (items data)) (\<lambda>kvs w3.
                   Return ()
                     (print_line (''JSON data processed and saved to '' @ output_file_path)
                        (fold (\<lambda>(key, v). file_write output_file_path
                                  (key @ '': '' @ str_json env v @ ''\<newline>''))
                           kvs w3)))
                 w2)))))
           (\<lambda>e w. Return () (print_line (''Error processing JSON data: '' @ str_exn e) w))
           (called Summarizer JSON w0))"

definition process_excel_data :: "env \<Rightarrow> string \<Rightarrow> string \<Rightarrow> string \<Rightarrow> world \<Rightarrow> unit result" where
  "process_excel_data env folder_name filename processed_filename w0 =
     (let input_file_path = join_path folder_name filename;
          output_file_path = join_path folder_name processed_filename
      in try_except
           (and_then (read_bytes input_file_path) (\<lambda>content.
            and_then (lift_exn (read_excel env content)) (\<lambda>df.
              let stats = compute_stats env df
              in and_then (open_write env output_file_path) (\<lambda>_ w.
                   Return ()
                     (print_line (''Excel data processed and saved to '' @ output_file_path)
                        (fold (\<lambda>(column, ms) w.
                                  write_metrics env output_file_path ms
                                    (file_write output_file_path (''Statistics for '' @ column @ '':\<newline>'') w))
                           stats w))))))
           (\<lambda>e w. Return () (print_line (''Error processing Excel data: '' @ str_exn e) w))
           (called Summarizer Spreadsheet w0))"

section \<open>Save functions\<close>

definition save_text :: "env \<Rightarrow> string \<Rightarrow> string \<Rightarrow> world \<Rightarrow> unit result" where
  "save_text env filename content w0 =
     (let file_path = data_file filename in
      and_then (open_write env file_path) (\<lambda>_ w.
        Return () (print_line (''Text data saved to '' @ data_path env filename)
                     (file_write file_path content w)))
        (called Writer Text w0))"

definition save_json :: "env \<Rightarrow> string \<Rightarrow> json \<Rightarrow> world \<Rightarrow> unit result" where
  "save_json env filename content w0 =
     (let file_path = data_file filename in
      and_then (open_write env file_path) (\<lambda>_ w.
        Return () (print_line (''JSON data saved to '' @ data_path env filename)
                     (file_write file_path (json_dumps env content) w)))
        (called Writer JSON w0))"

definition save_csv :: "env \<Rightarrow> string \<Rightarrow> string \<Rightarrow> world \<Rightarrow> unit result" where
  "save_csv env filename content w0 =
     (let file_path = data_file filename in
      and_then (lift_exn (read_csv content)) (\<lambda>df.
      and_then (open_write env file_path) (\<lambda>_ w.
        Return () (print_line (''CSV data saved to '' @ data_path env filename)
                     (file_write file_path (to_csv df) w))))
        (called Writer CSV w0))"

definition save_excel :: "env \<Rightarrow> string \<Rightarrow> string \<Rightarrow> world \<Rightarrow> unit result" where
  "save_excel env filename content w0 =
     (let file_path = data_file filename in
      and_then (open_write env file_path) (\<lambda>_ w.
        Return () (print_line (''Excel data saved to '' @ data_path env filename)
                     (file_write file_path content w)))
        (called Writer Spreadsheet w0))"

section \<open>The main function\<close>

definition txt_url :: string where
  "txt_url = ''https://raw.githubusercontent.com/denisecase/datafun-03-spec/main/data.txt''"

definition csv_url :: string where
  "csv_url = ''https://raw.githubusercontent.com/denisecase/datafun-03-spec/main/data.csv''"

definition excel_url :: string where
  "excel_url = ''https://raw.githubusercontent.com/denisecase/datafun-03-spec/main/data.xls''"

definition json_url :: string where
  "json_url = ''https://raw.githubusercontent.com/denisecase/datafun-03-spec/main/data.json''"

text \<open>
  The four blocks of \<open>main\<close> (lines 254-258, 260-264, 266-270, 272-276). The guard
  \<^verbatim>\<open>if text_content:\<close> is Python's truth value: \<open>None\<close> and the empty string are
  false; for JSON, every falsy value is.
\<close>

definition text_block :: "env \<Rightarrow> world \<Rightarrow> unit result" where
  "text_block env =
     and_then (fetch_txt_data env txt_url) (\<lambda>text_content.
       case text_content of
         None \<Rightarrow> Return ()
       | Some c \<Rightarrow>
           if c \<noteq> [] then
             and_then (save_text env ''data.txt'' c)
               (\<lambda>_. process_text_data env ''data'' ''data.txt'' ''processed_text.txt'')
           else Return ())"

definition csv_block :: "env \<Rightarrow> world \<Rightarrow> unit result" where
  "csv_block env =
     and_then (fetch_csv_data env csv_url) (\<lambda>csv_content.
       case csv_content of
         None \<Rightarrow> Return ()
       | Some c \<Rightarrow>
           if c \<noteq> [] then
             and_then (save_csv env ''data.csv'' c)
               (\<lambda>_. process_csv_data env ''data'' ''data.csv'' ''processed_csv.txt'')
           else Return ())"

definition excel_block :: "env \<Rightarrow> world \<Rightarrow> unit result" where
  "excel_block env =
     and_then (fetch_excel_data env excel_url) (\<lambda>excel_content.
       case excel_content of
         None \<Rightarrow> Return ()
       | Some c \<Rightarrow>
           if c \<noteq> [] then
             and_then (save_excel env ''data.xls'' c)
               (\<lambda>_. process_excel_data env ''data'' ''data.xls'' ''processed_excel.txt'')
           else Return ())"

definition json_block :: "env \<Rightarrow> world \<Rightarrow> unit result" where
  "json_block env =
     and_then (fetch_json_data env json_url) (\<lambda>json_content.
       case json_content of
         None \<Rightarrow> Return ()
       | Some c \<Rightarrow>
           if truthy c then
             and_then (save_json env ''data.json'' c)
               (\<lambda>_. process_json_data env ''data'' ''data.json'' ''processed_json.txt'')
           else Return ())"

definition main :: "env \<Rightarrow> world \<Rightarrow> unit result" where
  "main env =
     and_then (text_block env) (\<lambda>_.
     and_then (csv_block env) (\<lambda>_.
     and_then (excel_block env) (\<lambda>_.
     json_block env)))"

section \<open>The reports in closed form\<close>

text \<open>
  What the write loops of the summarizers leave in a report, as one text. The theorems below
  relate these texts to the summarizers; the summarizers do not use them.
\<close>

definition text_report :: "string \<Rightarrow> string" where
  "text_report content =
     ''Total words: '' @ str_nat (length (split content)) @ ''\<newline>'' @
     ''Unique words: '' @ str_nat (card (set (split content))) @ ''\<newline>'' @
     ''Word frequencies:\<newline>'' @
     concat (map (\<lambda>word. word @ '': '' @ str_nat (count_list (split content) word) @ ''\<newline>'')
               (first_seen (split content)))"

definition metrics_text :: "env \<Rightarrow> (string \<times> stat) list \<Rightarrow> string" where
  "metrics_text env ms = concat (map (\<lambda>(key, v). key @ '': '' @ str_stat env v @ ''\<newline>'') ms)"

definition csv_report :: "env \<Rightarrow> dataframe \<Rightarrow> string" where
  "csv_report env df =
     ''Rows as tuples:\<newline>'' @
     concat (map (\<lambda>row. str_tuple env row @ ''\<newline>'') (rows df)) @
     ''\<newline>Statistics for numeric columns:\<newline>'' @
     concat (map (\<lambda>(column, ms). ''\<newline>'' @ column @ '':\<newline>'' @ metrics_text env ms)
               (compute_stats env df))"

definition excel_report :: "env \<Rightarrow> dataframe \<Rightarrow> string" where
  "excel_report env df =
     concat (map (\<lambda>(column, ms). ''Statistics for '' @ column @ '':\<newline>'' @ metrics_text env ms)
               (compute_stats env df))"

definition json_report :: "env \<Rightarrow> json \<Rightarrow> nat \<Rightarrow> string" where
  "json_report env data item_count =
     ''Item count: '' @ str_nat item_count @ ''\<newline>'' @ ''JSON data summary:\<newline>'' @
     (case items data of
        Inl e \<Rightarrow> []
      | Inr kvs \<Rightarrow> concat (map (\<lambda>(key, v). key @ '': '' @ str_json env v @ ''\<newline>'') kvs))"

text \<open>
  The report a summarizer leaves for a given input file, or \<open>None\<close> when it fails before it
  opens the report.
\<close>

definition text_outcome :: "string \<Rightarrow> string option" where
  "text_outcome content = Some (text_report content)"

definition csv_outcome :: "env \<Rightarrow> string \<Rightarrow> string option" where
  "csv_outcome env content =
     (case read_csv content of Inl e \<Rightarrow> None | Inr df \<Rightarrow> Some (csv_report env df))"

definition excel_outcome :: "env \<Rightarrow> string \<Rightarrow> string option" where
  "excel_outcome env content =
     (case read_excel env content of Inl e \<Rightarrow> None | Inr df \<Rightarrow> Some (excel_report env df))"

definition json_outcome :: "env \<Rightarrow> string \<Rightarrow> string option" where
  "json_outcome env content =
     (case json_loads env (universal_newlines content) of
        Inl e \<Rightarrow> None
      | Inr data \<Rightarrow> (case py_len data of Inl e \<Rightarrow> None | Inr n \<Rightarrow> Some (json_report env data n)))"

definition report_written :: "env \<Rightarrow> string \<Rightarrow> string \<Rightarrow> string option \<Rightarrow> world \<Rightarrow> string \<rightharpoonup> string" where
  "report_written env input output outcome w =
     (case files w input of
        None \<Rightarrow> files w
      | Some content \<Rightarrow>
          (case outcome of
             None \<Rightarrow> files w
           | Some report \<Rightarrow>
               (case open_w env output of
                  Some e \<Rightarrow> files w
                | None \<Rightarrow> (files w)(output \<mapsto> report))))"

section \<open>Describing a run\<close>

text \<open>
  Notions in which the theorems about \<open>main\<close> are stated: the URL of a dataset, whether
  its fetch raises, whether it returns status 200 with a payload that Python counts as true,
  whether its writer raises on that payload, the order of the twelve calls of a full run, and the datasets whose fetch was attempted.
  \<open>guarded_block\<close> is the common shape of the four blocks of \<open>main\<close>; \<open>replayable\<close>
  says that a step adds the same files and ends the same way from every world.
\<close>

fun url_of :: "dataset \<Rightarrow> string" where
  "url_of Text = txt_url"
| "url_of CSV = csv_url"
| "url_of Spreadsheet = excel_url"
| "url_of JSON = json_url"

fun payload_truthy :: "dataset \<Rightarrow> response \<Rightarrow> bool" where
  "payload_truthy Text r = (resp_text r \<noteq> [])"
| "payload_truthy CSV r = (resp_text r \<noteq> [])"
| "payload_truthy Spreadsheet r = (resp_content r \<noteq> [])"
| "payload_truthy JSON r = (case resp_json r of Inl e \<Rightarrow> False | Inr v \<Rightarrow> truthy v)"

definition fetch_ok :: "env \<Rightarrow> dataset \<Rightarrow> bool" where
  "fetch_ok env d =
     (case http_get env (url_of d) of
        Inl e \<Rightarrow> False
      | Inr r \<Rightarrow> status_code r = 200 \<and> payload_truthy d r)"

definition fetch_raises :: "env \<Rightarrow> dataset \<Rightarrow> bool" where
  "fetch_raises env d =
     (case http_get env (url_of d) of
        Inl e \<Rightarrow> True
      | Inr r \<Rightarrow> d = JSON \<and> status_code r = 200 \<and> isl (resp_json r))"

text \<open>Whether the writer of a dataset raises on the payload its fetcher got: the file system
  refuses the file, or, for CSV, the content does not parse.\<close>

fun writer_raises :: "env \<Rightarrow> dataset \<Rightarrow> response \<Rightarrow> bool" where
  "writer_raises env Text r = (open_w env (data_file ''data.txt'') \<noteq> None)"
| "writer_raises env CSV r =
     (isl (read_csv (resp_text r)) \<or> open_w env (data_file ''data.csv'') \<noteq> None)"
| "writer_raises env Spreadsheet r = (open_w env (data_file ''data.xls'') \<noteq> None)"
| "writer_raises env JSON r = (open_w env (data_file ''data.json'') \<noteq> None)"

definition save_raises :: "env \<Rightarrow> dataset \<Rightarrow> bool" where
  "save_raises env d =
     (case http_get env (url_of d) of Inl e \<Rightarrow> False | Inr r \<Rightarrow> writer_raises env d r)"

definition block_shape :: "env \<Rightarrow> dataset \<Rightarrow> (stage \<times> dataset) list \<Rightarrow> bool \<Rightarrow> bool" where
  "block_shape env d tr r =
     (if fetch_raises env d then tr = [(Fetcher, d)] \<and> r
      else if fetch_ok env d then
        (if save_raises env d then tr = [(Fetcher, d), (Writer, d)] \<and> r
         else tr = [(Fetcher, d), (Writer, d), (Summarizer, d)] \<and> \<not> r)
      else tr = [(Fetcher, d)] \<and> \<not> r)"


definition guarded_block ::
  "(world \<Rightarrow> 'c option result) \<Rightarrow> ('c \<Rightarrow> bool) \<Rightarrow> ('c \<Rightarrow> world \<Rightarrow> unit result) \<Rightarrow> (world \<Rightarrow> unit result)
     \<Rightarrow> world \<Rightarrow> unit result" where
  "guarded_block fetch truthy' save process =
     and_then fetch (\<lambda>content.
       case content of
         None \<Rightarrow> Return ()
       | Some c \<Rightarrow> if truthy' c then and_then (save c) (\<lambda>_. process) else Return ())"


definition pipeline_order :: "(stage \<times> dataset) list" where
  "pipeline_order =
     [(Fetcher, Text), (Writer, Text), (Summarizer, Text),
      (Fetcher, CSV), (Writer, CSV), (Summarizer, CSV),
      (Fetcher, Spreadsheet), (Writer, Spreadsheet), (Summarizer, Spreadsheet),
      (Fetcher, JSON), (Writer, JSON), (Summarizer, JSON)]"

definition attempted :: "(stage \<times> dataset) list \<Rightarrow> dataset list" where
  "attempted tr = map snd (filter (\<lambda>c. fst c = Fetcher) tr)"

fun datasets_upto :: "dataset \<Rightarrow> dataset list" where
  "datasets_upto Text = [Text]"
| "datasets_upto CSV = [Text, CSV]"
| "datasets_upto Spreadsheet = [Text, CSV, Spreadsheet]"
| "datasets_upto JSON = [Text, CSV, Spreadsheet, JSON]"

fun successor :: "dataset \<Rightarrow> dataset option" where
  "successor Text = Some CSV"
| "successor CSV = Some Spreadsheet"
| "successor Spreadsheet = Some JSON"
| "successor JSON = None"

fun label :: "dataset \<Rightarrow> string" where
  "label Text = ''text''"
| "label CSV = ''CSV''"
| "label Spreadsheet = ''Excel''"
| "label JSON = ''JSON''"

definition fetch_failure_line :: "dataset \<Rightarrow> int \<Rightarrow> string" where
  "fetch_failure_line d code = ''Failed to fetch '' @ label d @ '' data: '' @ str_int code"


definition logs_failure :: "env \<Rightarrow> dataset \<Rightarrow> world \<Rightarrow> bool" where
  "logs_failure env d W =
     (\<forall>r. http_get env (url_of d) = Inr r \<and> status_code r \<noteq> 200 \<longrightarrow>
          fetch_failure_line d (status_code r) \<in> set (stdout W))"


fun outcome :: "'a result \<Rightarrow> exn + 'a" where
  "outcome (Return a w) = Inr a"
| "outcome (Raise e w) = Inl e"

definition replayable :: "(world \<Rightarrow> 'a result) \<Rightarrow> bool" where
  "replayable m = (\<exists>delta v. \<forall>w. files (world_of (m w)) = files w ++ delta \<and> outcome (m w) = v)"


definition report_delta :: "env \<Rightarrow> string \<Rightarrow> string option \<Rightarrow> string \<rightharpoonup> string" where
  "report_delta env output oc =
     (case oc of
        None \<Rightarrow> Map.empty
      | Some report \<Rightarrow> (case open_w env output of Some e \<Rightarrow> Map.empty | None \<Rightarrow> [output \<mapsto> report]))"

section \<open>A sample environment\<close>

text \<open>
  A concrete environment on which the theorems below are run: every URL answers 200, the
  file system refuses nothing, and the numeric parse knows the digits.
\<close>

definition sample_response :: "string \<Rightarrow> json \<Rightarrow> response" where
  "sample_response body v =
     \<lparr>status_code = 200, resp_text = body, resp_content = body, resp_json = Inr v\<rparr>"

definition sample_numbers :: "string \<Rightarrow> number option" where
  "sample_numbers s =
     (if s = ''1'' then Some (IntN 1) else if s = ''2'' then Some (IntN 2)
      else if s = ''3'' then Some (IntN 3) else if s = ''4'' then Some (IntN 4)
      else if s = ''5'' then Some (IntN 5) else None)"

definition sample_float :: "real \<Rightarrow> string" where
  "sample_float x =
     (if x = 5 then ''5.0'' else if x = 5 / 2 then ''2.5''
      else if 1.2909944 < x \<and> x < 1.2909945 then ''1.2909944487358056'' else ''?'')"

definition sample_env :: env where
  "sample_env =
     \<lparr>project_path = ''/home/user/project'',
      http_get = (\<lambda>url.
        if url = txt_url then Inr (sample_response ''to be or not to be'' JNull)
        else if url = csv_url then Inr (sample_response ''n,s\<newline>1,a\<newline>1,a\<newline>'' JNull)
        else if url = excel_url then Inr (sample_response ''xls'' JNull)
        else Inr (sample_response ''[1, 2, 3]'' (JArr [JInt 1, JInt 2, JInt 3]))),
      open_w = (\<lambda>path. None),
      json_dumps = (\<lambda>v. ''[1, 2, 3]''),
      json_loads = (\<lambda>s. if s = ''[1, 2, 3]'' then Inr (JArr [JInt 1, JInt 2, JInt 3])
                        else Inl (ValueError ''Expecting value'')),
      str_json = (\<lambda>v. ''v''),
      read_excel = (\<lambda>bytes. Inr \<lparr>columns = [''n'', ''s''], rows = [[Some ''5'', Some ''a'']]\<rparr>),
      parse_number = sample_numbers,
      str_float = sample_float,
      str_tuple = (\<lambda>r. ''('' @ join_with CHR '','' (map cell_text r) @ '')'')\<rparr>"

definition empty_world :: world where
  "empty_world = \<lparr>files = Map.empty, stdout = [], calls = []\<rparr>"

text \<open>A table with a numeric and a non-numeric column, as the CSV parser and (in the sample
  environment) the spreadsheet parser deliver it, and a world that holds both files.\<close>

definition sample_table :: dataframe where
  "sample_table = \<lparr>columns = [''n'', ''s''], rows = [[Some ''5'', Some ''a'']]\<rparr>"

definition sample_tables_world :: world where
  "sample_tables_world =
     empty_world\<lparr>files := [''data/data.csv'' \<mapsto> ''n,s\<newline>5,a\<newline>'', ''data/data.xls'' \<mapsto> ''xls'']\<rparr>"


definition text_down_env :: env where
  "text_down_env =
     sample_env\<lparr>http_get := (\<lambda>url. if url = txt_url then Inl (RequestException ''Connection refused'')
                                   else http_get sample_env url)\<rparr>"

definition empty_body_env :: env where
  "empty_body_env =
     sample_env\<lparr>http_get := (\<lambda>url. if url = txt_url then Inr (sample_response [] JNull)
                                   else http_get sample_env url)\<rparr>"

definition readonly_env :: env where
  "readonly_env =
     sample_env\<lparr>open_w := (\<lambda>path. if path = ''data/data.csv''
                                  then Some (OSError ''[Errno 13] Permission denied'') else None)\<rparr>"

section \<open>Basic facts about the world\<close>

lemma print_line_simps [simp]:
  "files (print_line s w) = files w"
  "stdout (print_line s w) = stdout w @ [s]"
  "calls (print_line s w) = calls w"
  by (simp_all add: print_line_def)

lemma called_simps [simp]:
  "files (called st d w) = files w"
  "stdout (called st d w) = stdout w"
  "calls (called st d w) = calls w @ [(st, d)]"
  by (simp_all add: called_def)

lemma file_write_simps [simp]:
  "files (file_write p s w) = (files w)(p \<mapsto> (case files w p of None \<Rightarrow> s | Some old \<Rightarrow> old @ s))"
  "stdout (file_write p s w) = stdout w"
  "calls (file_write p s w) = calls w"
  by (simp_all add: file_write_def)

text \<open>A loop of writes to one file appends the chunks in order.\<close>

lemma files_fold_file_write:
  "files (fold (\<lambda>x. file_write p (g x)) xs w) =
     (if xs = [] then files w
      else (files w)(p \<mapsto> (case files w p of None \<Rightarrow> [] | Some old \<Rightarrow> old) @ concat (map g xs)))"
proof (induction xs arbitrary: w)
  case Nil
  then show ?case by simp
next
  case (Cons s ss)
  show ?case by (auto simp: Cons fun_eq_iff split: option.splits)
qed

lemma stdout_fold_file_write [simp]: "stdout (fold (\<lambda>x. file_write p (g x)) xs w) = stdout w"
  by (induction xs arbitrary: w) simp_all

lemma calls_fold_file_write [simp]: "calls (fold (\<lambda>x. file_write p (g x)) xs w) = calls w"
  by (induction xs arbitrary: w) simp_all

lemma pairs_file_write:
  "(\<lambda>(k, v). file_write p (g k v)) = (\<lambda>x. file_write p (g (fst x) (snd x)))"
  by (simp add: fun_eq_iff split_def)

lemma str_nat_digit: "n < 10 \<Longrightarrow> str_nat n = [digit_char n]"
  by (simp add: str_nat.simps)

section \<open>The text summarizer: tokens, counts and order\<close>

lemma split_Nil [simp]: "split [] = []"
  by (simp add: split.simps)

lemma split_Cons:
  "split (c # cs) =
     (if is_space c then split cs
      else (c # takeWhile (\<lambda>x. \<not> is_space x) cs) # split (dropWhile (\<lambda>x. \<not> is_space x) cs))"
  by (subst split.simps, subst (2) split.simps) simp

lemma is_space_CR [simp]: "is_space (CHR 0x0D)"
  by (simp add: is_space_def)

lemma is_space_LF [simp]: "is_space (CHR 0x0A)"
  by (simp add: is_space_def)

text \<open>Every token is a non-empty run without whitespace.\<close>

lemma split_tokens: "t \<in> set (split s) \<Longrightarrow> t \<noteq> [] \<and> (\<forall>c \<in> set t. \<not> is_space c)"
proof (induction "length s" arbitrary: s rule: less_induct)
  case less
  show ?case
  proof (cases s)
    case Nil
    then show ?thesis using less.prems by simp
  next
    case (Cons c cs)
    show ?thesis
    proof (cases "is_space c")
      case True
      have "split s = split cs" by (simp only: Cons split_Cons True if_True)
      then have "t \<in> set (split cs)" using less.prems by simp
      moreover have "length cs < length s" by (simp add: Cons)
      ultimately show ?thesis by (rule less.hyps [rotated])
    next
      case False
      have "split s = (c # takeWhile (\<lambda>x. \<not> is_space x) cs) # split (dropWhile (\<lambda>x. \<not> is_space x) cs)"
        by (simp only: Cons split_Cons False if_False)
      then consider "t = c # takeWhile (\<lambda>x. \<not> is_space x) cs"
        | "t \<in> set (split (dropWhile (\<lambda>x. \<not> is_space x) cs))"
        using less.prems by auto
      then show ?thesis
      proof cases
        case 1
        then show ?thesis using False by (auto dest: set_takeWhileD)
      next
        case 2
        moreover have "length (dropWhile (\<lambda>x. \<not> is_space x) cs) < length s"
          using length_dropWhile_le [of "\<lambda>x. \<not> is_space x" cs] by (simp add: Cons)
        ultimately show ?thesis by (rule less.hyps [rotated])
      qed
    qed
  qed
qed

text \<open>Tokens written one after the other, each followed by a whitespace character, split back
  into the same tokens.\<close>

lemma split_joined:
  assumes "\<forall>t \<in> set ts. t \<noteq> [] \<and> (\<forall>c \<in> set t. \<not> is_space c)" "is_space sp"
  shows "split (concat (map (\<lambda>t. t @ [sp]) ts)) = ts"
  using assms
proof (induction ts)
  case Nil
  then show ?case by simp
next
  case (Cons t ts)
  then obtain c cs where t: "t = c # cs" by (cases t) auto
  have ns: "\<not> is_space c" "\<forall>x \<in> set cs. \<not> is_space x" using Cons.prems t by auto
  have tw: "takeWhile (\<lambda>x. \<not> is_space x) (cs @ sp # concat (map (\<lambda>t. t @ [sp]) ts)) = cs"
    using ns Cons.prems(2) by (simp add: takeWhile_append)
  have dw: "dropWhile (\<lambda>x. \<not> is_space x) (cs @ sp # concat (map (\<lambda>t. t @ [sp]) ts))
      = sp # concat (map (\<lambda>t. t @ [sp]) ts)"
    using ns Cons.prems(2) by (simp add: dropWhile_append)
  have IH: "split (concat (map (\<lambda>t. t @ [sp]) ts)) = ts"
    using Cons.IH Cons.prems by simp
  have "split (concat (map (\<lambda>t. t @ [sp]) (t # ts)))
      = split (c # (cs @ sp # concat (map (\<lambda>t. t @ [sp]) ts)))"
    by (simp add: t)
  also have "\<dots> = (c # cs) # split (sp # concat (map (\<lambda>t. t @ [sp]) ts))"
    by (simp only: split_Cons [of c] ns(1) if_False tw dw)
  also have "\<dots> = (c # cs) # ts"
    by (simp only: split_Cons [of sp] Cons.prems(2) if_True IH)
  finally show ?case by (simp add: t)
qed

text \<open>The translation of line endings on reading does not change the tokens.\<close>

lemma takeWhile_universal_newlines:
  "takeWhile (\<lambda>x. \<not> is_space x) (universal_newlines cs) = takeWhile (\<lambda>x. \<not> is_space x) cs"
  by (induction cs rule: universal_newlines.induct) (auto split: list.splits)

lemma dropWhile_universal_newlines:
  "dropWhile (\<lambda>x. \<not> is_space x) (universal_newlines cs)
     = universal_newlines (dropWhile (\<lambda>x. \<not> is_space x) cs)"
  by (induction cs rule: universal_newlines.induct) (auto split: list.splits)

lemma split_universal_newlines: "split (universal_newlines s) = split s"
proof (induction "length s" arbitrary: s rule: less_induct)
  case less
  show ?case
  proof (cases s)
    case Nil
    then show ?thesis by simp
  next
    case (Cons c cs)
    show ?thesis
    proof (cases "c = CHR 0x0D")
      case True
      show ?thesis
      proof (cases cs)
        case Nil
        then show ?thesis using Cons True by (simp add: split_Cons)
      next
        case (Cons d ds)
        have 1: "split (universal_newlines cs) = split cs"
          using less [of cs] \<open>s = c # cs\<close> by simp
        have 2: "split (universal_newlines ds) = split ds"
          using less [of ds] \<open>s = c # cs\<close> Cons by simp
        show ?thesis using \<open>s = c # cs\<close> Cons True 1 2
          by (simp add: split_Cons)
      qed
    next
      case False
      have 1: "split (universal_newlines cs) = split cs"
        using less [of cs] Cons by simp
      have "length (dropWhile (\<lambda>x. \<not> is_space x) cs) < length s"
        using length_dropWhile_le [of "\<lambda>x. \<not> is_space x" cs] Cons by simp
      then have 2: "split (universal_newlines (dropWhile (\<lambda>x. \<not> is_space x) cs))
          = split (dropWhile (\<lambda>x. \<not> is_space x) cs)"
        using less by blast
      show ?thesis using Cons False 1 2
        by (simp add: split_Cons takeWhile_universal_newlines dropWhile_universal_newlines)
    qed
  qed
qed

lemma set_first_seen [simp]: "set (first_seen xs) = set xs"
  by (induction xs) auto

lemma distinct_first_seen [simp]: "distinct (first_seen xs)"
  by (induction xs) auto

lemma length_first_seen: "length (first_seen xs) = card (set xs)"
  by (metis distinct_card distinct_first_seen set_first_seen)

lemma count_step_keys:
  "map fst (count_step a d) = (if a \<in> fst ` set d then map fst d else map fst d @ [a])"
  by (simp add: count_step_def update_keys)

lemma count_step_dom: "fst ` set (count_step a d) = insert a (fst ` set d)"
  by (simp add: count_step_def dom_update)

lemma count_step_map_of: "map_of (count_step a d) = (map_of d)(a \<mapsto> dict_get d a 0 + 1)"
  by (simp add: count_step_def update_conv')

text \<open>The keys of the frequency dict: those it had, then the new words as first seen.\<close>

lemma fold_count_step_keys:
  "map fst (fold count_step ws d)
     = map fst d @ filter (\<lambda>w. w \<notin> fst ` set d) (first_seen ws)"
proof (induction ws arbitrary: d)
  case Nil
  then show ?case by simp
next
  case (Cons a ws)
  show ?case
  proof (cases "a \<in> fst ` set d")
    case True
    then have "insert a (fst ` set d) = fst ` set d" by auto
    moreover have "filter (\<lambda>w. w \<notin> fst ` set d) (filter (\<lambda>y. y \<noteq> a) (first_seen ws))
        = filter (\<lambda>w. w \<notin> fst ` set d) (first_seen ws)"
      using True by (auto intro: filter_cong)
    ultimately show ?thesis using True
      by (simp add: Cons count_step_keys count_step_dom)
  next
    case False
    have "filter (\<lambda>w. w \<noteq> a \<and> w \<notin> fst ` set d) (first_seen ws)
        = filter (\<lambda>w. w \<notin> fst ` set d) (filter (\<lambda>y. y \<noteq> a) (first_seen ws))"
      by (auto intro: filter_cong)
    then show ?thesis using False
      by (simp add: Cons count_step_keys count_step_dom)
  qed
qed

lemma fold_count_step_map_of:
  "map_of (fold count_step ws d) k
     = (if k \<in> set ws \<or> k \<in> fst ` set d then Some (dict_get d k 0 + count_list ws k) else None)"
proof (induction ws arbitrary: d)
  case Nil
  then show ?case by (auto simp: dict_get_def map_of_eq_None_iff split: option.splits)
next
  case (Cons a ws)
  show ?case
    by (auto simp: Cons count_step_map_of count_step_dom dict_get_def map_of_eq_None_iff image_iff
        split: option.splits)
qed

text \<open>An association list is determined by its keys, when distinct, and its lookups.\<close>

lemma alist_eqI:
  assumes "map fst xs = ks" "distinct ks" "\<And>k. k \<in> set ks \<Longrightarrow> map_of xs k = Some (f k)"
  shows "xs = map (\<lambda>k. (k, f k)) ks"
  using assms
proof (induction xs arbitrary: ks)
  case Nil
  then show ?case by simp
next
  case (Cons p xs)
  obtain k v where p: "p = (k, v)" by (cases p)
  obtain ks' where ks: "ks = k # ks'" "map fst xs = ks'" using Cons.prems(1) p by auto
  have v: "v = f k" using Cons.prems(3) [of k] ks p by simp
  have "xs = map (\<lambda>k. (k, f k)) ks'"
  proof (rule Cons.IH [OF ks(2)])
    show "distinct ks'" using Cons.prems(2) ks by simp
  next
    fix j assume j: "j \<in> set ks'"
    then have "j \<noteq> k" using Cons.prems(2) ks by auto
    then show "map_of xs j = Some (f j)" using Cons.prems(3) [of j] j ks p by simp
  qed
  then show ?case using p ks v by simp
qed

lemma count_words_eq:
  "count_words ws = map (\<lambda>w. (w, count_list ws w)) (first_seen ws)"
proof (rule alist_eqI)
  show "map fst (count_words ws) = first_seen ws"
    by (simp add: count_words_def fold_count_step_keys)
  show "distinct (first_seen ws)" by simp
  fix k assume "k \<in> set (first_seen ws)"
  then show "map_of (count_words ws) k = Some (count_list ws k)"
    by (simp add: count_words_def fold_count_step_map_of dict_get_def)
qed

text \<open>
  C3. Given the input file and a writable report path, the text summarizer returns and the
  report reads: \<open>Total words\<close>, the number of whitespace-delimited tokens of the input;
  \<open>Unique words\<close>, the number of distinct tokens; then one frequency line per distinct
  token, in the order in which the tokens are first seen. For the empty file the report is
  \<open>Total words: 0\<close>, \<open>Unique words: 0\<close> and an empty frequency section.
\<close>

theorem process_text_data_report:
  assumes "files w (join_path folder filename) = Some content"
      and "open_w env (join_path folder processed) = None"
  shows "\<exists>w'. process_text_data env folder filename processed w = Return () w' \<and>
           files w' (join_path folder processed) =
             Some (''Total words: '' @ str_nat (length (split content)) @ ''\<newline>'' @
                   ''Unique words: '' @ str_nat (card (set (split content))) @ ''\<newline>'' @
                   ''Word frequencies:\<newline>'' @
                   concat (map (\<lambda>word. word @ '': '' @ str_nat (count_list (split content) word) @ ''\<newline>'')
                             (first_seen (split content)))) \<and>
           (content = [] \<longrightarrow>
              files w' (join_path folder processed) =
                Some ''Total words: 0\<newline>Unique words: 0\<newline>Word frequencies:\<newline>'')"
  using assms
  by (simp add: process_text_data_def try_except_def and_then_def read_text_def read_bytes_def
      open_write_def Let_def pairs_file_write files_fold_file_write split_universal_newlines
      count_words_eq comp_def str_nat_digit digit_char_def)

theorem process_text_data_report_witness:
  "\<exists>w'. process_text_data sample_env ''data'' ''data.txt'' ''processed_text.txt''
           (empty_world\<lparr>files := [''data/data.txt'' \<mapsto> ''to be  or not\<newline>to be'']\<rparr>) = Return () w' \<and>
        files w' ''data/processed_text.txt'' =
          Some ''Total words: 6\<newline>Unique words: 4\<newline>Word frequencies:\<newline>to: 2\<newline>be: 2\<newline>or: 1\<newline>not: 1\<newline>''"
proof -
  have h1: "files (empty_world\<lparr>files := [''data/data.txt'' \<mapsto> ''to be  or not\<newline>to be'']\<rparr>)
      (join_path ''data'' ''data.txt'') = Some ''to be  or not\<newline>to be''"
    by (simp add: join_path_def)
  have h2: "open_w sample_env (join_path ''data'' ''processed_text.txt'') = None"
    by (simp add: sample_env_def)
  have h3: "split ''to be  or not\<newline>to be'' = [''to'', ''be'', ''or'', ''not'', ''to'', ''be'']"
    by (simp add: split_Cons is_space_def)
  have h5: "card (set [''to'', ''be'', ''or'', ''not'', ''to'', ''be'']) = 4"
    by (subst List.card_set) simp
  show ?thesis
    using process_text_data_report [OF h1 h2]
    by (simp only: h3 h5) (simp add: join_path_def str_nat_digit digit_char_def)
qed

section \<open>What the summarizers write, print and return\<close>

lemma files_fold_sections:
  "files (fold (\<lambda>x w. fold (\<lambda>y. file_write p (g x y)) (h x) (file_write p (t x) w)) xs w) =
     (if xs = [] then files w
      else (files w)(p \<mapsto> (case files w p of None \<Rightarrow> [] | Some old \<Rightarrow> old)
                           @ concat (map (\<lambda>x. t x @ concat (map (g x) (h x))) xs)))"
proof (induction xs arbitrary: w)
  case Nil
  then show ?case by simp
next
  case (Cons s ss)
  show ?case by (auto simp: Cons files_fold_file_write fun_eq_iff split: option.splits)
qed

lemma stdout_fold_sections [simp]:
  "stdout (fold (\<lambda>x w. fold (\<lambda>y. file_write p (g x y)) (h x) (file_write p (t x) w)) xs w) = stdout w"
  by (induction xs arbitrary: w) simp_all

lemma calls_fold_sections [simp]:
  "calls (fold (\<lambda>x w. fold (\<lambda>y. file_write p (g x y)) (h x) (file_write p (t x) w)) xs w) = calls w"
  by (induction xs arbitrary: w) simp_all


lemma metrics_text_alt:
  "metrics_text env ms = concat (map (\<lambda>y. fst y @ '': '' @ str_stat env (snd y) @ ''\<newline>'') ms)"
  by (simp add: metrics_text_def split_def)

lemma process_text_data_files:
  "files (world_of (process_text_data env folder filename processed w)) =
     report_written env (join_path folder filename) (join_path folder processed)
       (case files w (join_path folder filename) of None \<Rightarrow> None | Some c \<Rightarrow> text_outcome c) w"
  by (simp add: process_text_data_def try_except_def and_then_def read_text_def read_bytes_def
      open_write_def Let_def pairs_file_write files_fold_file_write split_universal_newlines
      count_words_eq comp_def report_written_def text_outcome_def text_report_def
      split: option.splits)

lemma process_csv_data_files:
  "files (world_of (process_csv_data env folder filename processed w)) =
     report_written env (join_path folder filename) (join_path folder processed)
       (case files w (join_path folder filename) of None \<Rightarrow> None | Some c \<Rightarrow> csv_outcome env c) w"
  by (simp add: process_csv_data_def try_except_def and_then_def read_bytes_def lift_exn_def
      open_write_def Let_def write_metrics_def files_fold_sections files_fold_file_write
      report_written_def csv_outcome_def csv_report_def metrics_text_alt split_def
      split: option.splits sum.splits)

lemma process_excel_data_files:
  "files (world_of (process_excel_data env folder filename processed w)) =
     report_written env (join_path folder filename) (join_path folder processed)
       (case files w (join_path folder filename) of None \<Rightarrow> None | Some c \<Rightarrow> excel_outcome env c) w"
  by (simp add: process_excel_data_def try_except_def and_then_def read_bytes_def lift_exn_def
      open_write_def Let_def write_metrics_def files_fold_sections
      report_written_def excel_outcome_def excel_report_def metrics_text_alt split_def
      split: option.splits sum.splits)

lemma process_json_data_files:
  "files (world_of (process_json_data env folder filename processed w)) =
     report_written env (join_path folder filename) (join_path folder processed)
       (case files w (join_path folder filename) of None \<Rightarrow> None | Some c \<Rightarrow> json_outcome env c) w"
  by (simp add: process_json_data_def try_except_def and_then_def read_text_def read_bytes_def
      lift_exn_def open_write_def Let_def pairs_file_write files_fold_file_write
      report_written_def json_outcome_def json_report_def split_def
      split: option.splits sum.splits)

lemma process_text_data_returns:
  "\<exists>w'. process_text_data env folder filename processed w = Return () w' \<and>
        calls w' = calls w @ [(Summarizer, Text)]"
  by (auto simp: process_text_data_def try_except_def and_then_def read_text_def read_bytes_def
      open_write_def Let_def pairs_file_write split: option.splits)

lemma process_csv_data_returns:
  "\<exists>w'. process_csv_data env folder filename processed w = Return () w' \<and>
        calls w' = calls w @ [(Summarizer, CSV)]"
  by (auto simp: process_csv_data_def try_except_def and_then_def read_bytes_def lift_exn_def
      open_write_def Let_def write_metrics_def split_def split: option.splits sum.splits)

lemma process_excel_data_returns:
  "\<exists>w'. process_excel_data env folder filename processed w = Return () w' \<and>
        calls w' = calls w @ [(Summarizer, Spreadsheet)]"
  by (auto simp: process_excel_data_def try_except_def and_then_def read_bytes_def lift_exn_def
      open_write_def Let_def write_metrics_def split_def split: option.splits sum.splits)

lemma process_json_data_returns:
  "\<exists>w'. process_json_data env folder filename processed w = Return () w' \<and>
        calls w' = calls w @ [(Summarizer, JSON)]"
  by (auto simp: process_json_data_def try_except_def and_then_def read_text_def read_bytes_def
      lift_exn_def open_write_def Let_def split_def split: option.splits sum.splits)

lemma process_never_raises [simp]:
  "\<not> raised (process_text_data env a b c w)"
  "\<not> raised (process_csv_data env a b c w)"
  "\<not> raised (process_excel_data env a b c w)"
  "\<not> raised (process_json_data env a b c w)"
  using process_text_data_returns [of env a b c w] process_csv_data_returns [of env a b c w]
    process_excel_data_returns [of env a b c w] process_json_data_returns [of env a b c w]
  by auto

lemma outcome_process [simp]:
  "outcome (process_text_data env a b c w) = Inr ()"
  "outcome (process_csv_data env a b c w) = Inr ()"
  "outcome (process_excel_data env a b c w) = Inr ()"
  "outcome (process_json_data env a b c w) = Inr ()"
  using process_text_data_returns [of env a b c w] process_csv_data_returns [of env a b c w]
    process_excel_data_returns [of env a b c w] process_json_data_returns [of env a b c w]
  by auto

lemma process_text_data_stdout:
  "set (stdout w) \<subseteq> set (stdout (world_of (process_text_data env folder filename processed w)))"
  by (auto simp: process_text_data_def try_except_def and_then_def read_text_def read_bytes_def
      open_write_def Let_def pairs_file_write split: option.splits)

lemma process_csv_data_stdout:
  "set (stdout w) \<subseteq> set (stdout (world_of (process_csv_data env folder filename processed w)))"
  by (auto simp: process_csv_data_def try_except_def and_then_def read_bytes_def lift_exn_def
      open_write_def Let_def write_metrics_def split_def split: option.splits sum.splits)

lemma process_excel_data_stdout:
  "set (stdout w) \<subseteq> set (stdout (world_of (process_excel_data env folder filename processed w)))"
  by (auto simp: process_excel_data_def try_except_def and_then_def read_bytes_def lift_exn_def
      open_write_def Let_def write_metrics_def split_def split: option.splits sum.splits)

lemma process_json_data_stdout:
  "set (stdout w) \<subseteq> set (stdout (world_of (process_json_data env folder filename processed w)))"
  by (auto simp: process_json_data_def try_except_def and_then_def read_text_def read_bytes_def
      lift_exn_def open_write_def Let_def split_def split: option.splits sum.splits)

section \<open>The JSON summarizer on a value that is not a mapping\<close>

lemma not_mapping_items: "\<not> is_mapping v \<Longrightarrow>
   items v = Inl (AttributeError (quoted (type_name v) @ '' object has no attribute '' @ quoted ''items''))"
  by (cases v) simp_all

text \<open>
  C6. When the file holds a JSON value that is not a mapping (an array, a string, a number,
  a boolean or null), the JSON summarizer does not raise: it returns, and it has printed
  one line, \<open>Error processing JSON data: ...\<close>, so the error is reported and the run goes on.
\<close>

theorem process_json_data_reports_non_mapping:
  assumes "files w (join_path folder filename) = Some content"
      and "json_loads env (universal_newlines content) = Inr data"
      and "\<not> is_mapping data"
  shows "\<exists>w' msg. process_json_data env folder filename processed w = Return () w' \<and>
           stdout w' = stdout w @ [''Error processing JSON data: '' @ msg]"
  using assms
  by (auto simp: process_json_data_def try_except_def and_then_def read_text_def read_bytes_def
      open_write_def lift_exn_def Let_def not_mapping_items
      split: sum.splits option.splits)

theorem process_json_data_reports_non_mapping_witness:
  "\<exists>w' msg. process_json_data sample_env ''data'' ''data.json'' ''processed_json.txt''
           (empty_world\<lparr>files := [''data/data.json'' \<mapsto> ''[1, 2, 3]'']\<rparr>) = Return () w' \<and>
         stdout w' = [''Error processing JSON data: '' @ msg]"
proof -
  have h1: "files (empty_world\<lparr>files := [''data/data.json'' \<mapsto> ''[1, 2, 3]'']\<rparr>)
      (join_path ''data'' ''data.json'') = Some ''[1, 2, 3]''"
    by (simp add: join_path_def)
  have h2: "json_loads sample_env (universal_newlines ''[1, 2, 3]'') = Inr (JArr [JInt 1, JInt 2, JInt 3])"
    by (simp add: sample_env_def)
  have h3: "\<not> is_mapping (JArr [JInt 1, JInt 2, JInt 3])" by simp
  show ?thesis
    using process_json_data_reports_non_mapping [OF h1 h2 h3, of "''processed_json.txt''"]
    by (simp add: empty_world_def)
qed

text \<open>
  C10. On a top-level array the error comes after the report was opened and two lines were
  written: the report file then holds \<open>Item count: n\<close>, with \<open>n\<close> the length of the
  array, and the header \<open>JSON data summary:\<close>, whatever it held before, and the error is
  printed.
\<close>

theorem process_json_data_array_partial_report:
  assumes "files w (join_path folder filename) = Some content"
      and "json_loads env (universal_newlines content) = Inr (JArr xs)"
      and "open_w env (join_path folder processed) = None"
  shows "\<exists>w'. process_json_data env folder filename processed w = Return () w' \<and>
           files w' (join_path folder processed) =
             Some (''Item count: '' @ str_nat (length xs) @ ''\<newline>'' @ ''JSON data summary:\<newline>'') \<and>
           stdout w' = stdout w @
             [''Error processing JSON data: '' @ quoted ''list'' @ '' object has no attribute '' @ quoted ''items'']"
  using assms
  by (simp add: process_json_data_def try_except_def and_then_def read_text_def read_bytes_def
      open_write_def lift_exn_def Let_def)

theorem process_json_data_array_partial_report_witness:
  "\<exists>w'. process_json_data sample_env ''data'' ''data.json'' ''processed_json.txt''
           (empty_world\<lparr>files := [''data/data.json'' \<mapsto> ''[1, 2, 3]'',
                                  ''data/processed_json.txt'' \<mapsto> ''an older report'']\<rparr>) = Return () w' \<and>
         files w' ''data/processed_json.txt'' = Some ''Item count: 3\<newline>JSON data summary:\<newline>''"
proof -
  let ?w = "empty_world\<lparr>files := [''data/data.json'' \<mapsto> ''[1, 2, 3]'',
                                  ''data/processed_json.txt'' \<mapsto> ''an older report'']\<rparr>"
  have h1: "files ?w (join_path ''data'' ''data.json'') = Some ''[1, 2, 3]''"
    by (simp add: join_path_def)
  have h2: "json_loads sample_env (universal_newlines ''[1, 2, 3]'') = Inr (JArr [JInt 1, JInt 2, JInt 3])"
    by (simp add: sample_env_def)
  have h3: "open_w sample_env (join_path ''data'' ''processed_json.txt'') = None"
    by (simp add: sample_env_def)
  show ?thesis
    using process_json_data_array_partial_report [OF h1 h2 h3]
    by (auto simp: join_path_def str_nat_digit digit_char_def)
qed

section \<open>The four blocks of main\<close>

lemma save_text_calls: "calls (world_of (save_text env f c w)) = calls w @ [(Writer, Text)]"
  by (simp add: save_text_def and_then_def open_write_def Let_def split: option.splits)

lemma save_csv_calls: "calls (world_of (save_csv env f c w)) = calls w @ [(Writer, CSV)]"
  by (simp add: save_csv_def and_then_def open_write_def lift_exn_def Let_def split: option.splits sum.splits)

lemma save_excel_calls: "calls (world_of (save_excel env f c w)) = calls w @ [(Writer, Spreadsheet)]"
  by (simp add: save_excel_def and_then_def open_write_def Let_def split: option.splits)

lemma save_json_calls: "calls (world_of (save_json env f c w)) = calls w @ [(Writer, JSON)]"
  by (simp add: save_json_def and_then_def open_write_def Let_def split: option.splits)

lemma text_block_guarded:
  "text_block env = guarded_block (fetch_txt_data env txt_url) (\<lambda>c. c \<noteq> [])
     (save_text env ''data.txt'') (process_text_data env ''data'' ''data.txt'' ''processed_text.txt'')"
  by (simp add: text_block_def guarded_block_def)

lemma csv_block_guarded:
  "csv_block env = guarded_block (fetch_csv_data env csv_url) (\<lambda>c. c \<noteq> [])
     (save_csv env ''data.csv'') (process_csv_data env ''data'' ''data.csv'' ''processed_csv.txt'')"
  by (simp add: csv_block_def guarded_block_def)

lemma excel_block_guarded:
  "excel_block env = guarded_block (fetch_excel_data env excel_url) (\<lambda>c. c \<noteq> [])
     (save_excel env ''data.xls'') (process_excel_data env ''data'' ''data.xls'' ''processed_excel.txt'')"
  by (simp add: excel_block_def guarded_block_def)

lemma json_block_guarded:
  "json_block env = guarded_block (fetch_json_data env json_url) truthy
     (save_json env ''data.json'') (process_json_data env ''data'' ''data.json'' ''processed_json.txt'')"
  by (simp add: json_block_def guarded_block_def)

lemma save_text_raised:
  "raised (save_text env f c w) \<longleftrightarrow> open_w env (data_file f) \<noteq> None"
  by (auto simp: save_text_def and_then_def open_write_def Let_def split: option.splits)

lemma save_excel_raised:
  "raised (save_excel env f c w) \<longleftrightarrow> open_w env (data_file f) \<noteq> None"
  by (auto simp: save_excel_def and_then_def open_write_def Let_def split: option.splits)

lemma save_json_raised:
  "raised (save_json env f c w) \<longleftrightarrow> open_w env (data_file f) \<noteq> None"
  by (auto simp: save_json_def and_then_def open_write_def Let_def split: option.splits)

lemma save_csv_raised:
  "raised (save_csv env f c w) \<longleftrightarrow> isl (read_csv c) \<or> open_w env (data_file f) \<noteq> None"
  by (auto simp: save_csv_def and_then_def open_write_def lift_exn_def Let_def
           split: option.splits sum.splits)

lemma guarded_block_shape:
  assumes fetch: "(fraises \<and> (\<exists>e. fetch w = Raise e (called Fetcher d w))) \<or>
                  (\<not> fraises \<and> (\<exists>c w1. fetch w = Return c w1 \<and> calls w1 = calls w @ [(Fetcher, d)] \<and>
                      (fok \<longleftrightarrow> (\<exists>x. c = Some x \<and> truthy' x)) \<and>
                      (\<forall>x w'. c = Some x \<longrightarrow> (raised (save x w') \<longleftrightarrow> sraises))))"
      and save: "\<And>c w1. calls (world_of (save c w1)) = calls w1 @ [(Writer, d)]"
      and process: "\<And>w1. \<exists>w2. process w1 = Return () w2 \<and> calls w2 = calls w1 @ [(Summarizer, d)]"
  shows "\<exists>tr. calls (world_of (guarded_block fetch truthy' save process w)) = calls w @ tr \<and>
           (if fraises then tr = [(Fetcher, d)] \<and> raised (guarded_block fetch truthy' save process w)
            else if fok then
              (if sraises then
                 tr = [(Fetcher, d), (Writer, d)] \<and> raised (guarded_block fetch truthy' save process w)
               else tr = [(Fetcher, d), (Writer, d), (Summarizer, d)] \<and>
                 \<not> raised (guarded_block fetch truthy' save process w))
            else tr = [(Fetcher, d)] \<and> \<not> raised (guarded_block fetch truthy' save process w))"
proof (cases fraises)
  case True
  then obtain e where "fetch w = Raise e (called Fetcher d w)" using fetch by auto
  then show ?thesis using True by (simp add: guarded_block_def and_then_def)
next
  case False
  then obtain c w1 where f: "fetch w = Return c w1" "calls w1 = calls w @ [(Fetcher, d)]"
      "fok \<longleftrightarrow> (\<exists>x. c = Some x \<and> truthy' x)"
      and sr: "\<And>x w'. c = Some x \<Longrightarrow> raised (save x w') \<longleftrightarrow> sraises"
    using fetch by auto
  show ?thesis
  proof (cases fok)
    case no: False
    then have "guarded_block fetch truthy' save process w = Return () w1"
      using f by (auto simp: guarded_block_def and_then_def split: option.splits)
    then show ?thesis using False no f by simp
  next
    case yes: True
    then obtain x where x: "c = Some x" "truthy' x" using f by auto
    have g: "guarded_block fetch truthy' save process w =
        (case save x w1 of Raise e w' \<Rightarrow> Raise e w' | Return u w' \<Rightarrow> process w')"
      using f x by (simp add: guarded_block_def and_then_def)
    show ?thesis
    proof (cases "save x w1")
      case (Raise e w2)
      then have "calls w2 = calls w1 @ [(Writer, d)]" using save [of x w1] by simp
      moreover have sraises using sr [OF x(1), of w1] Raise by simp
      ultimately show ?thesis using False yes g Raise f by simp
    next
      case (Return u w2)
      then have c2: "calls w2 = calls w1 @ [(Writer, d)]" using save [of x w1] by simp
      have ns: "\<not> sraises" using sr [OF x(1), of w1] Return by simp
      obtain w3 where "process w2 = Return () w3" "calls w3 = calls w2 @ [(Summarizer, d)]"
        using process by blast
      then show ?thesis using False yes g Return f c2 ns by simp
    qed
  qed
qed

lemma text_block_shape:
  "\<exists>tr. calls (world_of (text_block env w)) = calls w @ tr \<and>
         block_shape env Text tr (raised (text_block env w))"
  unfolding text_block_guarded block_shape_def
proof (rule guarded_block_shape)
  show "(fetch_raises env Text \<and> (\<exists>e. fetch_txt_data env txt_url w = Raise e (called Fetcher Text w))) \<or>
    (\<not> fetch_raises env Text \<and> (\<exists>c w1. fetch_txt_data env txt_url w = Return c w1 \<and>
       calls w1 = calls w @ [(Fetcher, Text)] \<and> (fetch_ok env Text \<longleftrightarrow> (\<exists>x. c = Some x \<and> x \<noteq> [])) \<and>
       (\<forall>x w'. c = Some x \<longrightarrow> (raised (save_text env ''data.txt'' x w') \<longleftrightarrow> save_raises env Text))))"
    by (auto simp: fetch_txt_data_def fetch_raises_def fetch_ok_def save_raises_def save_text_raised Let_def
             split: sum.splits)
qed (simp_all add: save_text_calls process_text_data_returns)

lemma csv_block_shape:
  "\<exists>tr. calls (world_of (csv_block env w)) = calls w @ tr \<and>
         block_shape env CSV tr (raised (csv_block env w))"
  unfolding csv_block_guarded block_shape_def
proof (rule guarded_block_shape)
  show "(fetch_raises env CSV \<and> (\<exists>e. fetch_csv_data env csv_url w = Raise e (called Fetcher CSV w))) \<or>
    (\<not> fetch_raises env CSV \<and> (\<exists>c w1. fetch_csv_data env csv_url w = Return c w1 \<and>
       calls w1 = calls w @ [(Fetcher, CSV)] \<and> (fetch_ok env CSV \<longleftrightarrow> (\<exists>x. c = Some x \<and> x \<noteq> [])) \<and>
       (\<forall>x w'. c = Some x \<longrightarrow> (raised (save_csv env ''data.csv'' x w') \<longleftrightarrow> save_raises env CSV))))"
    by (auto simp: fetch_csv_data_def fetch_raises_def fetch_ok_def save_raises_def save_csv_raised Let_def
             split: sum.splits)
qed (simp_all add: save_csv_calls process_csv_data_returns)

lemma excel_block_shape:
  "\<exists>tr. calls (world_of (excel_block env w)) = calls w @ tr \<and>
         block_shape env Spreadsheet tr (raised (excel_block env w))"
  unfolding excel_block_guarded block_shape_def
proof (rule guarded_block_shape)
  show "(fetch_raises env Spreadsheet \<and> (\<exists>e. fetch_excel_data env excel_url w = Raise e (called Fetcher Spreadsheet w))) \<or>
    (\<not> fetch_raises env Spreadsheet \<and> (\<exists>c w1. fetch_excel_data env excel_url w = Return c w1 \<and>
       calls w1 = calls w @ [(Fetcher, Spreadsheet)] \<and> (fetch_ok env Spreadsheet \<longleftrightarrow> (\<exists>x. c = Some x \<and> x \<noteq> [])) \<and>
       (\<forall>x w'. c = Some x \<longrightarrow> (raised (save_excel env ''data.xls'' x w') \<longleftrightarrow> save_raises env Spreadsheet))))"
    by (auto simp: fetch_excel_data_def fetch_raises_def fetch_ok_def save_raises_def save_excel_raised Let_def
             split: sum.splits)
qed (simp_all add: save_excel_calls process_excel_data_returns)

lemma json_block_shape:
  "\<exists>tr. calls (world_of (json_block env w)) = calls w @ tr \<and>
         block_shape env JSON tr (raised (json_block env w))"
  unfolding json_block_guarded block_shape_def
proof (rule guarded_block_shape)
  show "(fetch_raises env JSON \<and> (\<exists>e. fetch_json_data env json_url w = Raise e (called Fetcher JSON w))) \<or>
    (\<not> fetch_raises env JSON \<and> (\<exists>c w1. fetch_json_data env json_url w = Return c w1 \<and>
       calls w1 = calls w @ [(Fetcher, JSON)] \<and> (fetch_ok env JSON \<longleftrightarrow> (\<exists>x. c = Some x \<and> truthy x)) \<and>
       (\<forall>x w'. c = Some x \<longrightarrow> (raised (save_json env ''data.json'' x w') \<longleftrightarrow> save_raises env JSON))))"
    by (auto simp: fetch_json_data_def fetch_raises_def fetch_ok_def save_raises_def save_json_raised Let_def
             split: sum.splits)
qed (simp_all add: save_json_calls process_json_data_returns)

lemma save_text_stdout: "set (stdout w) \<subseteq> set (stdout (world_of (save_text env f c w)))"
  by (auto simp: save_text_def and_then_def open_write_def Let_def split: option.splits)

lemma save_csv_stdout: "set (stdout w) \<subseteq> set (stdout (world_of (save_csv env f c w)))"
  by (auto simp: save_csv_def and_then_def open_write_def lift_exn_def Let_def split: option.splits sum.splits)

lemma save_excel_stdout: "set (stdout w) \<subseteq> set (stdout (world_of (save_excel env f c w)))"
  by (auto simp: save_excel_def and_then_def open_write_def Let_def split: option.splits)

lemma save_json_stdout: "set (stdout w) \<subseteq> set (stdout (world_of (save_json env f c w)))"
  by (auto simp: save_json_def and_then_def open_write_def Let_def split: option.splits)

lemma guarded_block_stdout:
  assumes "set (stdout w) \<subseteq> set (stdout (world_of (fetch w)))"
      and "\<And>c w1. set (stdout w1) \<subseteq> set (stdout (world_of (save c w1)))"
      and "\<And>w1. set (stdout w1) \<subseteq> set (stdout (world_of (process w1)))"
  shows "set (stdout w) \<subseteq> set (stdout (world_of (guarded_block fetch truthy' save process w)))"
proof (cases "fetch w")
  case (Raise e w1)
  then show ?thesis using assms(1) by (simp add: guarded_block_def and_then_def)
next
  case (Return c w1)
  then have f: "set (stdout w) \<subseteq> set (stdout w1)" using assms(1) by simp
  show ?thesis
  proof (cases "\<exists>x. c = Some x \<and> truthy' x")
    case False
    then have "guarded_block fetch truthy' save process w = Return () w1"
      using Return by (auto simp: guarded_block_def and_then_def split: option.splits)
    then show ?thesis using f by simp
  next
    case True
    then obtain x where x: "c = Some x" "truthy' x" by auto
    have g: "guarded_block fetch truthy' save process w =
        (case save x w1 of Raise e w' \<Rightarrow> Raise e w' | Return u w' \<Rightarrow> process w')"
      using Return x by (simp add: guarded_block_def and_then_def)
    show ?thesis
    proof (cases "save x w1")
      case (Raise e w2)
      then show ?thesis using g f assms(2) [of w1 x] by auto
    next
      case (Return u w2)
      then show ?thesis using g f assms(2) [of w1 x] assms(3) [of w2] by auto
    qed
  qed
qed

lemma text_block_stdout: "set (stdout w) \<subseteq> set (stdout (world_of (text_block env w)))"
  unfolding text_block_guarded
  by (rule guarded_block_stdout)
    (auto simp: fetch_txt_data_def Let_def save_text_stdout [THEN subsetD]
      process_text_data_stdout [THEN subsetD] split: sum.splits)

lemma csv_block_stdout: "set (stdout w) \<subseteq> set (stdout (world_of (csv_block env w)))"
  unfolding csv_block_guarded
  by (rule guarded_block_stdout)
    (auto simp: fetch_csv_data_def Let_def save_csv_stdout [THEN subsetD]
      process_csv_data_stdout [THEN subsetD] split: sum.splits)

lemma excel_block_stdout: "set (stdout w) \<subseteq> set (stdout (world_of (excel_block env w)))"
  unfolding excel_block_guarded
  by (rule guarded_block_stdout)
    (auto simp: fetch_excel_data_def Let_def save_excel_stdout [THEN subsetD]
      process_excel_data_stdout [THEN subsetD] split: sum.splits)

lemma json_block_stdout: "set (stdout w) \<subseteq> set (stdout (world_of (json_block env w)))"
  unfolding json_block_guarded
  by (rule guarded_block_stdout)
    (auto simp: fetch_json_data_def Let_def save_json_stdout [THEN subsetD]
      process_json_data_stdout [THEN subsetD] split: sum.splits)

lemma text_block_failure_logged:
  "http_get env txt_url = Inr r \<Longrightarrow> status_code r \<noteq> 200 \<Longrightarrow>
     fetch_failure_line Text (status_code r) \<in> set (stdout (world_of (text_block env w)))"
  by (simp add: text_block_def and_then_def fetch_txt_data_def Let_def fetch_failure_line_def)

lemma csv_block_failure_logged:
  "http_get env csv_url = Inr r \<Longrightarrow> status_code r \<noteq> 200 \<Longrightarrow>
     fetch_failure_line CSV (status_code r) \<in> set (stdout (world_of (csv_block env w)))"
  by (simp add: csv_block_def and_then_def fetch_csv_data_def Let_def fetch_failure_line_def)

lemma excel_block_failure_logged:
  "http_get env excel_url = Inr r \<Longrightarrow> status_code r \<noteq> 200 \<Longrightarrow>
     fetch_failure_line Spreadsheet (status_code r) \<in> set (stdout (world_of (excel_block env w)))"
  by (simp add: excel_block_def and_then_def fetch_excel_data_def Let_def fetch_failure_line_def)

lemma json_block_failure_logged:
  "http_get env json_url = Inr r \<Longrightarrow> status_code r \<noteq> 200 \<Longrightarrow>
     fetch_failure_line JSON (status_code r) \<in> set (stdout (world_of (json_block env w)))"
  by (simp add: json_block_def and_then_def fetch_json_data_def Let_def fetch_failure_line_def)

section \<open>The shape of a run\<close>

lemma and_then_unit:
  fixes m :: "world \<Rightarrow> unit result"
  shows "and_then m (\<lambda>_. f) w = (if raised (m w) then m w else f (world_of (m w)))"
  by (cases "m w") (simp_all add: and_then_def)

lemma main_unfold:
  "main env w =
     (if raised (text_block env w) then text_block env w
      else if raised (csv_block env (world_of (text_block env w)))
        then csv_block env (world_of (text_block env w))
      else if raised (excel_block env (world_of (csv_block env (world_of (text_block env w)))))
        then excel_block env (world_of (csv_block env (world_of (text_block env w))))
      else json_block env (world_of (excel_block env (world_of (csv_block env (world_of (text_block env w)))))))"
  by (simp only: main_def and_then_unit)

lemma block_shape_cases:
  assumes "block_shape env d tr b"
  obtains (fetch_raised) "fetch_raises env d" "tr = [(Fetcher, d)]" "b"
        | (skipped) "\<not> fetch_raises env d" "\<not> fetch_ok env d" "tr = [(Fetcher, d)]" "\<not> b"
        | (save_raised) "\<not> fetch_raises env d" "fetch_ok env d" "tr = [(Fetcher, d), (Writer, d)]" "b"
            "save_raises env d"
        | (completed) "\<not> fetch_raises env d" "fetch_ok env d"
            "tr = [(Fetcher, d), (Writer, d), (Summarizer, d)]" "\<not> b" "\<not> save_raises env d"
  using assms unfolding block_shape_def by (auto split: if_splits)

lemma main_shape_logged:
  obtains tr1 tr2 tr3 tr4 b1 b2 b3 where
    "calls (world_of (main env w)) = calls w @ tr1 @ tr2 @ tr3 @ tr4"
    "block_shape env Text tr1 b1"
    "if b1 then tr2 = [] \<and> tr3 = [] \<and> tr4 = [] \<and> raised (main env w)
     else block_shape env CSV tr2 b2 \<and>
       (if b2 then tr3 = [] \<and> tr4 = [] \<and> raised (main env w)
        else block_shape env Spreadsheet tr3 b3 \<and>
          (if b3 then tr4 = [] \<and> raised (main env w)
           else block_shape env JSON tr4 (raised (main env w))))"
    "logs_failure env Text (world_of (main env w))"
    "\<not> b1 \<longrightarrow> logs_failure env CSV (world_of (main env w))"
    "\<not> b1 \<and> \<not> b2 \<longrightarrow> logs_failure env Spreadsheet (world_of (main env w))"
    "\<not> b1 \<and> \<not> b2 \<and> \<not> b3 \<longrightarrow> logs_failure env JSON (world_of (main env w))"
proof -
  define r1 where "r1 = text_block env w"
  define r2 where "r2 = csv_block env (world_of r1)"
  define r3 where "r3 = excel_block env (world_of r2)"
  define r4 where "r4 = json_block env (world_of r3)"
  have m: "main env w = (if raised r1 then r1 else if raised r2 then r2 else if raised r3 then r3 else r4)"
    unfolding r1_def r2_def r3_def r4_def by (rule main_unfold)
  obtain tr1 where 1: "calls (world_of r1) = calls w @ tr1" "block_shape env Text tr1 (raised r1)"
    unfolding r1_def using text_block_shape by blast
  obtain tr2 where 2: "calls (world_of r2) = calls (world_of r1) @ tr2" "block_shape env CSV tr2 (raised r2)"
    unfolding r2_def using csv_block_shape by blast
  obtain tr3 where 3: "calls (world_of r3) = calls (world_of r2) @ tr3" "block_shape env Spreadsheet tr3 (raised r3)"
    unfolding r3_def using excel_block_shape by blast
  obtain tr4 where 4: "calls (world_of r4) = calls (world_of r3) @ tr4" "block_shape env JSON tr4 (raised r4)"
    unfolding r4_def using json_block_shape by blast
  have s2: "set (stdout (world_of r1)) \<subseteq> set (stdout (world_of r2))"
    unfolding r2_def by (rule csv_block_stdout)
  have s3: "set (stdout (world_of r2)) \<subseteq> set (stdout (world_of r3))"
    unfolding r3_def by (rule excel_block_stdout)
  have s4: "set (stdout (world_of r3)) \<subseteq> set (stdout (world_of r4))"
    unfolding r4_def by (rule json_block_stdout)
  have l1: "logs_failure env Text (world_of r1)"
    unfolding r1_def logs_failure_def using text_block_failure_logged by simp
  have l2: "logs_failure env CSV (world_of r2)"
    unfolding r2_def logs_failure_def using csv_block_failure_logged by simp
  have l3: "logs_failure env Spreadsheet (world_of r3)"
    unfolding r3_def logs_failure_def using excel_block_failure_logged by simp
  have l4: "logs_failure env JSON (world_of r4)"
    unfolding r4_def logs_failure_def using json_block_failure_logged by simp
  have mono: "\<And>d W W'. logs_failure env d W \<Longrightarrow> set (stdout W) \<subseteq> set (stdout W') \<Longrightarrow> logs_failure env d W'"
    unfolding logs_failure_def by blast
  have l12: "logs_failure env Text (world_of r2)" by (rule mono [OF l1 s2])
  have l13: "logs_failure env Text (world_of r3)" by (rule mono [OF l12 s3])
  have l14: "logs_failure env Text (world_of r4)" by (rule mono [OF l13 s4])
  have l23: "logs_failure env CSV (world_of r3)" by (rule mono [OF l2 s3])
  have l24: "logs_failure env CSV (world_of r4)" by (rule mono [OF l23 s4])
  have l34: "logs_failure env Spreadsheet (world_of r4)" by (rule mono [OF l3 s4])
  show ?thesis
  proof (cases "raised r1")
    case True
    show ?thesis by (rule that [of tr1 "[]" "[]" "[]" True]) (use m 1 True l1 in simp_all)
  next
    case n1: False
    show ?thesis
    proof (cases "raised r2")
      case True
      show ?thesis by (rule that [of tr1 tr2 "[]" "[]" False True]) (use m 1 2 n1 True l12 l2 in simp_all)
    next
      case n2: False
      show ?thesis
      proof (cases "raised r3")
        case True
        show ?thesis
          by (rule that [of tr1 tr2 tr3 "[]" False False True])
            (use m 1 2 3 n1 n2 True l13 l23 l3 in simp_all)
      next
        case n3: False
        show ?thesis
          by (rule that [of tr1 tr2 tr3 tr4 False False False])
            (use m 1 2 3 4 n1 n2 n3 l14 l24 l34 l4 in simp_all)
      qed
    qed
  qed
qed

lemma block_shape_subseq:
  "block_shape env d tr b \<Longrightarrow> subseq tr [(Fetcher, d), (Writer, d), (Summarizer, d)]"
  by (erule block_shape_cases) simp_all

lemma fetch_raises_not_ok: "fetch_raises env d \<Longrightarrow> \<not> fetch_ok env d"
  by (cases d) (auto simp: fetch_ok_def fetch_raises_def split: sum.splits)

lemma non200_not_ok:
  "http_get env (url_of d) = Inr r \<Longrightarrow> status_code r \<noteq> 200 \<Longrightarrow> \<not> fetch_ok env d \<and> \<not> fetch_raises env d"
  by (simp add: fetch_ok_def fetch_raises_def)

lemma urls_distinct [simp]:
  "txt_url \<noteq> csv_url" "txt_url \<noteq> excel_url" "txt_url \<noteq> json_url"
  "csv_url \<noteq> txt_url" "csv_url \<noteq> excel_url" "csv_url \<noteq> json_url"
  "excel_url \<noteq> txt_url" "excel_url \<noteq> csv_url" "excel_url \<noteq> json_url"
  "json_url \<noteq> txt_url" "json_url \<noteq> csv_url" "json_url \<noteq> excel_url"
  by (simp_all add: txt_url_def csv_url_def excel_url_def json_url_def)

lemma sample_env_simps [simp]:
  "http_get sample_env txt_url = Inr (sample_response ''to be or not to be'' JNull)"
  "http_get sample_env csv_url = Inr (sample_response ''n,s\<newline>1,a\<newline>1,a\<newline>'' JNull)"
  "http_get sample_env excel_url = Inr (sample_response ''xls'' JNull)"
  "http_get sample_env json_url = Inr (sample_response ''[1, 2, 3]'' (JArr [JInt 1, JInt 2, JInt 3]))"
  "open_w sample_env path = None"
  by (simp_all add: sample_env_def)

lemma sample_response_simps [simp]:
  "status_code (sample_response body v) = 200"
  "resp_text (sample_response body v) = body"
  "resp_content (sample_response body v) = body"
  "resp_json (sample_response body v) = Inr v"
  by (simp_all add: sample_response_def)

lemma sample_read_csv:
  "read_csv ''n,s\<newline>1,a\<newline>1,a\<newline>'' =
     Inr \<lparr>columns = [''n'', ''s''], rows = [[Some ''1'', Some ''a''], [Some ''1'', Some ''a'']]\<rparr>"
  by (simp add: read_csv_def text_lines_def cell_of_def)

lemma sample_text_block: "\<not> raised (text_block sample_env w)"
  by (simp add: text_block_def and_then_def fetch_txt_data_def Let_def
      save_text_def open_write_def split: result.splits)

lemma sample_csv_block: "\<not> raised (csv_block sample_env w)"
  by (simp add: csv_block_def and_then_def fetch_csv_data_def Let_def
      save_csv_def open_write_def lift_exn_def sample_read_csv split: result.splits)

lemma sample_excel_block: "\<not> raised (excel_block sample_env w)"
  by (simp add: excel_block_def and_then_def fetch_excel_data_def Let_def
      save_excel_def open_write_def split: result.splits)

lemma sample_json_block: "\<not> raised (json_block sample_env w)"
  by (simp add: json_block_def and_then_def fetch_json_data_def Let_def
      save_json_def open_write_def split: result.splits)

lemma sample_main_returns: "\<not> raised (main sample_env w)"
  by (simp add: main_unfold sample_text_block sample_csv_block sample_excel_block sample_json_block)

text \<open>Facts about the calls of a run that starts with an empty trace.\<close>

lemma main_calls_in_order:
  assumes "calls w = []"
  shows "subseq (calls (world_of (main env w))) pipeline_order"
proof -
  obtain tr1 tr2 tr3 tr4 b1 b2 b3 where
    T: "calls (world_of (main env w)) = calls w @ tr1 @ tr2 @ tr3 @ tr4" and
    s1: "block_shape env Text tr1 b1" and
    rest: "if b1 then tr2 = [] \<and> tr3 = [] \<and> tr4 = [] \<and> raised (main env w)
     else block_shape env CSV tr2 b2 \<and>
       (if b2 then tr3 = [] \<and> tr4 = [] \<and> raised (main env w)
        else block_shape env Spreadsheet tr3 b3 \<and>
          (if b3 then tr4 = [] \<and> raised (main env w)
           else block_shape env JSON tr4 (raised (main env w))))" and
    lg: "logs_failure env Text (world_of (main env w))"
    "\<not> b1 \<longrightarrow> logs_failure env CSV (world_of (main env w))"
    "\<not> b1 \<and> \<not> b2 \<longrightarrow> logs_failure env Spreadsheet (world_of (main env w))"
    "\<not> b1 \<and> \<not> b2 \<and> \<not> b3 \<longrightarrow> logs_failure env JSON (world_of (main env w))"
    by (rule main_shape_logged)
  have p: "pipeline_order = [(Fetcher, Text), (Writer, Text), (Summarizer, Text)] @
      [(Fetcher, CSV), (Writer, CSV), (Summarizer, CSV)] @
      [(Fetcher, Spreadsheet), (Writer, Spreadsheet), (Summarizer, Spreadsheet)] @
      [(Fetcher, JSON), (Writer, JSON), (Summarizer, JSON)]"
    by (simp add: pipeline_order_def)
  have e1: "subseq tr1 [(Fetcher, Text), (Writer, Text), (Summarizer, Text)]"
    using s1 by (rule block_shape_subseq)
  have e2: "subseq tr2 [(Fetcher, CSV), (Writer, CSV), (Summarizer, CSV)]"
    using rest by (cases b1) (auto intro: block_shape_subseq)
  have e3: "subseq tr3 [(Fetcher, Spreadsheet), (Writer, Spreadsheet), (Summarizer, Spreadsheet)]"
    using rest by (cases b1; cases b2) (auto intro: block_shape_subseq)
  have e4: "subseq tr4 [(Fetcher, JSON), (Writer, JSON), (Summarizer, JSON)]"
    using rest by (cases b1; cases b2; cases b3) (auto intro: block_shape_subseq)
  have "subseq (tr1 @ tr2 @ tr3 @ tr4) pipeline_order"
    unfolding p
    by (rule list_emb_append_mono [OF e1 list_emb_append_mono [OF e2 list_emb_append_mono [OF e3 e4]]])
  then show ?thesis by (simp add: T assms)
qed

lemma main_writer_iff:
  assumes "calls w = []"
  shows "(Writer, d) \<in> set (calls (world_of (main env w))) \<longleftrightarrow>
           (Fetcher, d) \<in> set (calls (world_of (main env w))) \<and> fetch_ok env d"
proof -
  obtain tr1 tr2 tr3 tr4 b1 b2 b3 where
    T: "calls (world_of (main env w)) = calls w @ tr1 @ tr2 @ tr3 @ tr4" and
    s1: "block_shape env Text tr1 b1" and
    rest: "if b1 then tr2 = [] \<and> tr3 = [] \<and> tr4 = [] \<and> raised (main env w)
     else block_shape env CSV tr2 b2 \<and>
       (if b2 then tr3 = [] \<and> tr4 = [] \<and> raised (main env w)
        else block_shape env Spreadsheet tr3 b3 \<and>
          (if b3 then tr4 = [] \<and> raised (main env w)
           else block_shape env JSON tr4 (raised (main env w))))" and
    lg: "logs_failure env Text (world_of (main env w))"
    "\<not> b1 \<longrightarrow> logs_failure env CSV (world_of (main env w))"
    "\<not> b1 \<and> \<not> b2 \<longrightarrow> logs_failure env Spreadsheet (world_of (main env w))"
    "\<not> b1 \<and> \<not> b2 \<and> \<not> b3 \<longrightarrow> logs_failure env JSON (world_of (main env w))"
    by (rule main_shape_logged)
  show ?thesis
    using s1 rest unfolding block_shape_def
    by (cases d) (auto simp: T assms dest: fetch_raises_not_ok split: if_splits)
qed

lemma main_summarizer_iff:
  assumes "calls w = []"
  shows "(Summarizer, d) \<in> set (calls (world_of (main env w))) \<longleftrightarrow>
           (Writer, d) \<in> set (calls (world_of (main env w))) \<and>
           \<not> (raised (main env w) \<and> last (calls (world_of (main env w))) = (Writer, d))"
proof -
  obtain tr1 tr2 tr3 tr4 b1 b2 b3 where
    T: "calls (world_of (main env w)) = calls w @ tr1 @ tr2 @ tr3 @ tr4" and
    s1: "block_shape env Text tr1 b1" and
    rest: "if b1 then tr2 = [] \<and> tr3 = [] \<and> tr4 = [] \<and> raised (main env w)
     else block_shape env CSV tr2 b2 \<and>
       (if b2 then tr3 = [] \<and> tr4 = [] \<and> raised (main env w)
        else block_shape env Spreadsheet tr3 b3 \<and>
          (if b3 then tr4 = [] \<and> raised (main env w)
           else block_shape env JSON tr4 (raised (main env w))))" and
    lg: "logs_failure env Text (world_of (main env w))"
    "\<not> b1 \<longrightarrow> logs_failure env CSV (world_of (main env w))"
    "\<not> b1 \<and> \<not> b2 \<longrightarrow> logs_failure env Spreadsheet (world_of (main env w))"
    "\<not> b1 \<and> \<not> b2 \<and> \<not> b3 \<longrightarrow> logs_failure env JSON (world_of (main env w))"
    by (rule main_shape_logged)
  show ?thesis
    using s1 rest unfolding block_shape_def
    by (cases d) (auto simp: T assms split: if_splits)
qed

lemma main_failure_logged:
  assumes "calls w = []"
      and "(Fetcher, d) \<in> set (calls (world_of (main env w)))"
      and "http_get env (url_of d) = Inr r" and "status_code r \<noteq> 200"
  shows "fetch_failure_line d (status_code r) \<in> set (stdout (world_of (main env w))) \<and>
         (case successor d of
            Some d' \<Rightarrow> (Fetcher, d') \<in> set (calls (world_of (main env w)))
          | None \<Rightarrow> \<not> raised (main env w))"
proof -
  obtain tr1 tr2 tr3 tr4 b1 b2 b3 where
    T: "calls (world_of (main env w)) = calls w @ tr1 @ tr2 @ tr3 @ tr4" and
    s1: "block_shape env Text tr1 b1" and
    rest: "if b1 then tr2 = [] \<and> tr3 = [] \<and> tr4 = [] \<and> raised (main env w)
     else block_shape env CSV tr2 b2 \<and>
       (if b2 then tr3 = [] \<and> tr4 = [] \<and> raised (main env w)
        else block_shape env Spreadsheet tr3 b3 \<and>
          (if b3 then tr4 = [] \<and> raised (main env w)
           else block_shape env JSON tr4 (raised (main env w))))" and
    lg: "logs_failure env Text (world_of (main env w))"
    "\<not> b1 \<longrightarrow> logs_failure env CSV (world_of (main env w))"
    "\<not> b1 \<and> \<not> b2 \<longrightarrow> logs_failure env Spreadsheet (world_of (main env w))"
    "\<not> b1 \<and> \<not> b2 \<and> \<not> b3 \<longrightarrow> logs_failure env JSON (world_of (main env w))"
    by (rule main_shape_logged)
  show ?thesis
    using s1 rest lg assms(2-4) non200_not_ok [OF assms(3,4)]
    unfolding block_shape_def logs_failure_def
    by (cases d) (auto simp: T assms(1) split: if_splits)
qed

lemma main_completed_fetches_all:
  assumes "calls w = []" and "\<not> raised (main env w)"
  shows "(Fetcher, d) \<in> set (calls (world_of (main env w)))"
proof -
  obtain tr1 tr2 tr3 tr4 b1 b2 b3 where
    T: "calls (world_of (main env w)) = calls w @ tr1 @ tr2 @ tr3 @ tr4" and
    s1: "block_shape env Text tr1 b1" and
    rest: "if b1 then tr2 = [] \<and> tr3 = [] \<and> tr4 = [] \<and> raised (main env w)
     else block_shape env CSV tr2 b2 \<and>
       (if b2 then tr3 = [] \<and> tr4 = [] \<and> raised (main env w)
        else block_shape env Spreadsheet tr3 b3 \<and>
          (if b3 then tr4 = [] \<and> raised (main env w)
           else block_shape env JSON tr4 (raised (main env w))))" and
    lg: "logs_failure env Text (world_of (main env w))"
    "\<not> b1 \<longrightarrow> logs_failure env CSV (world_of (main env w))"
    "\<not> b1 \<and> \<not> b2 \<longrightarrow> logs_failure env Spreadsheet (world_of (main env w))"
    "\<not> b1 \<and> \<not> b2 \<and> \<not> b3 \<longrightarrow> logs_failure env JSON (world_of (main env w))"
    by (rule main_shape_logged)
  show ?thesis
    using s1 rest assms(2) unfolding block_shape_def
    by (cases d) (auto simp: T assms(1) split: if_splits)
qed

section \<open>Which errors abort the run\<close>

text \<open>
  C1, as stated, fails: the fetchers and the writers have no handler, so a transport error
  of the first fetch ends \<open>main\<close> with that exception, and no other dataset is attempted.
\<close>

theorem main_aborted_by_transport_error:
  "raised (main text_down_env empty_world) \<and>
   calls (world_of (main text_down_env empty_world)) = [(Fetcher, Text)]"
  by (simp add: main_def and_then_def text_block_def fetch_txt_data_def Let_def text_down_env_def
      empty_world_def)

text \<open>
  C1, amended. A run that returns has attempted all four datasets, in order, whatever the
  status codes and whatever went wrong inside the summarizers. An exception of a fetcher
  (its request or its JSON decoding raises) or of a writer (the file system refuses the
  file, the CSV content does not parse) is not caught: whenever a fetcher that raises or a
  writer that raises is called, \<open>main\<close> ends with an exception and that call is the last
  one. Nothing else ends the run: a run that raises was ended by such a fetcher or writer,
  the datasets attempted are those up to its dataset, and the later ones are not attempted.
  So the run raises if and only if a fetcher or a writer that it calls raises.
\<close>

theorem main_aborts_only_in_fetcher_or_writer:
  assumes "calls w = []"
  shows "(\<not> raised (main env w) \<longrightarrow>
            attempted (calls (world_of (main env w))) = [Text, CSV, Spreadsheet, JSON]) \<and>
         (raised (main env w) \<longrightarrow>
            (\<exists>d. ((last (calls (world_of (main env w))) = (Fetcher, d) \<and> fetch_raises env d) \<or>
                  (last (calls (world_of (main env w))) = (Writer, d) \<and> save_raises env d)) \<and>
                 attempted (calls (world_of (main env w))) = datasets_upto d)) \<and>
         (\<forall>d. (Fetcher, d) \<in> set (calls (world_of (main env w))) \<and> fetch_raises env d \<longrightarrow>
              raised (main env w) \<and> last (calls (world_of (main env w))) = (Fetcher, d)) \<and>
         (\<forall>d. (Writer, d) \<in> set (calls (world_of (main env w))) \<and> save_raises env d \<longrightarrow>
              raised (main env w) \<and> last (calls (world_of (main env w))) = (Writer, d)) \<and>
         (raised (main env w) \<longleftrightarrow>
            (\<exists>d. ((Fetcher, d) \<in> set (calls (world_of (main env w))) \<and> fetch_raises env d) \<or>
                 ((Writer, d) \<in> set (calls (world_of (main env w))) \<and> save_raises env d)))"
proof -
  obtain tr1 tr2 tr3 tr4 b1 b2 b3 where
    T: "calls (world_of (main env w)) = calls w @ tr1 @ tr2 @ tr3 @ tr4" and
    s1: "block_shape env Text tr1 b1" and
    rest: "if b1 then tr2 = [] \<and> tr3 = [] \<and> tr4 = [] \<and> raised (main env w)
     else block_shape env CSV tr2 b2 \<and>
       (if b2 then tr3 = [] \<and> tr4 = [] \<and> raised (main env w)
        else block_shape env Spreadsheet tr3 b3 \<and>
          (if b3 then tr4 = [] \<and> raised (main env w)
           else block_shape env JSON tr4 (raised (main env w))))" and
    lg: "logs_failure env Text (world_of (main env w))"
    "\<not> b1 \<longrightarrow> logs_failure env CSV (world_of (main env w))"
    "\<not> b1 \<and> \<not> b2 \<longrightarrow> logs_failure env Spreadsheet (world_of (main env w))"
    "\<not> b1 \<and> \<not> b2 \<and> \<not> b3 \<longrightarrow> logs_failure env JSON (world_of (main env w))"
    by (rule main_shape_logged)
  have 1: "\<not> raised (main env w) \<longrightarrow>
            attempted (calls (world_of (main env w))) = [Text, CSV, Spreadsheet, JSON]"
    using s1 rest unfolding block_shape_def
    by (auto simp: T assms attempted_def split: if_splits)
  have 2: "raised (main env w) \<longrightarrow>
            (\<exists>d. ((last (calls (world_of (main env w))) = (Fetcher, d) \<and> fetch_raises env d) \<or>
                  (last (calls (world_of (main env w))) = (Writer, d) \<and> save_raises env d)) \<and>
                 attempted (calls (world_of (main env w))) = datasets_upto d)"
    using s1 rest unfolding block_shape_def
    by (auto simp: T assms attempted_def split: if_splits)
  have 3: "raised (main env w) \<and> last (calls (world_of (main env w))) = (Fetcher, d)"
    if "(Fetcher, d) \<in> set (calls (world_of (main env w)))" "fetch_raises env d" for d
    using s1 rest that unfolding block_shape_def
    by (auto simp: T assms split: if_splits)
  have 4: "raised (main env w) \<and> last (calls (world_of (main env w))) = (Writer, d)"
    if "(Writer, d) \<in> set (calls (world_of (main env w)))" "save_raises env d" for d
    using s1 rest that unfolding block_shape_def
    by (auto simp: T assms split: if_splits)
  have ne: "calls (world_of (main env w)) \<noteq> []"
    using s1 unfolding block_shape_def by (auto simp: T split: if_splits)
  have 5: "raised (main env w) \<longleftrightarrow>
            (\<exists>d. ((Fetcher, d) \<in> set (calls (world_of (main env w))) \<and> fetch_raises env d) \<or>
                 ((Writer, d) \<in> set (calls (world_of (main env w))) \<and> save_raises env d))"
    using 2 3 4 last_in_set [OF ne] by metis
  show ?thesis using 1 2 3 4 5 by blast
qed

lemma readonly_env_simps:
  "http_get readonly_env = http_get sample_env"
  "open_w readonly_env path =
     (if path = ''data/data.csv'' then Some (OSError ''[Errno 13] Permission denied'') else None)"
  by (simp_all add: readonly_env_def)

lemma readonly_env_run:
  "raised (main readonly_env empty_world)"
  "calls (world_of (main readonly_env empty_world)) =
     [(Fetcher, Text), (Writer, Text), (Summarizer, Text), (Fetcher, CSV), (Writer, CSV)]"
  "save_raises readonly_env CSV"
proof -
  let ?r1 = "text_block readonly_env empty_world"
  let ?r2 = "csv_block readonly_env (world_of ?r1)"
  obtain tr1 where 1: "calls (world_of ?r1) = calls empty_world @ tr1"
      "block_shape readonly_env Text tr1 (raised ?r1)"
    using text_block_shape by blast
  obtain tr2 where 2: "calls (world_of ?r2) = calls (world_of ?r1) @ tr2"
      "block_shape readonly_env CSV tr2 (raised ?r2)"
    using csv_block_shape by blast
  show s: "save_raises readonly_env CSV"
    by (simp add: save_raises_def readonly_env_simps data_file_def join_path_def)
  have t: "tr1 = [(Fetcher, Text), (Writer, Text), (Summarizer, Text)]" "\<not> raised ?r1"
    using 1(2)
    by (simp_all add: block_shape_def fetch_raises_def fetch_ok_def save_raises_def
        readonly_env_simps data_file_def join_path_def)
  have c: "tr2 = [(Fetcher, CSV), (Writer, CSV)]" "raised ?r2"
    using 2(2) s
    by (simp_all add: block_shape_def fetch_raises_def fetch_ok_def readonly_env_simps)
  show "raised (main readonly_env empty_world)"
    using t c by (simp add: main_unfold)
  show "calls (world_of (main readonly_env empty_world)) =
     [(Fetcher, Text), (Writer, Text), (Summarizer, Text), (Fetcher, CSV), (Writer, CSV)]"
    using t c 1(1) 2(1) by (simp add: main_unfold empty_world_def)
qed

theorem main_aborts_only_in_fetcher_or_writer_witness:
  "attempted (calls (world_of (main sample_env empty_world))) = [Text, CSV, Spreadsheet, JSON] \<and>
   fetch_raises text_down_env Text \<and>
   raised (main text_down_env empty_world) \<and>
   last (calls (world_of (main text_down_env empty_world))) = (Fetcher, Text) \<and>
   attempted (calls (world_of (main text_down_env empty_world))) = [Text] \<and>
   save_raises readonly_env CSV \<and>
   raised (main readonly_env empty_world) \<and>
   last (calls (world_of (main readonly_env empty_world))) = (Writer, CSV) \<and>
   attempted (calls (world_of (main readonly_env empty_world))) = [Text, CSV]"
proof -
  have e: "calls empty_world = []" by (simp add: empty_world_def)
  have a: "attempted (calls (world_of (main sample_env empty_world))) = [Text, CSV, Spreadsheet, JSON]"
    using main_aborts_only_in_fetcher_or_writer [OF e, of sample_env] sample_main_returns by simp
  have c: "calls (world_of (main text_down_env empty_world)) = [(Fetcher, Text)]"
    by (simp add: main_def and_then_def text_block_def fetch_txt_data_def Let_def text_down_env_def
        empty_world_def)
  have f: "fetch_raises text_down_env Text"
    by (simp add: fetch_raises_def text_down_env_def)
  have b: "raised (main text_down_env empty_world) \<and>
      last (calls (world_of (main text_down_env empty_world))) = (Fetcher, Text)"
    using main_aborts_only_in_fetcher_or_writer [OF e, of text_down_env] f c by simp
  have d: "raised (main readonly_env empty_world) \<and>
      last (calls (world_of (main readonly_env empty_world))) = (Writer, CSV)"
    using main_aborts_only_in_fetcher_or_writer [OF e, of readonly_env] readonly_env_run(2,3) by auto
  show ?thesis
    using a b c d f readonly_env_run(2,3) by (simp add: attempted_def)
qed

section \<open>When the writer and the summarizer are called\<close>

text \<open>
  C7, as stated, fails: status 200 does not suffice. The guard of each block is Python's
  truth value of the payload, so a 200 answer with an empty body skips the writer and the
  summarizer.
\<close>

theorem writer_skipped_after_successful_fetch:
  "(\<exists>r. http_get empty_body_env txt_url = Inr r \<and> status_code r = 200) \<and>
   (Writer, Text) \<notin> set (calls (world_of (main empty_body_env empty_world)))"
proof -
  have e: "calls empty_world = []" by (simp add: empty_world_def)
  have "\<not> fetch_ok empty_body_env Text"
    by (simp add: fetch_ok_def empty_body_env_def sample_response_def)
  then have "(Writer, Text) \<notin> set (calls (world_of (main empty_body_env empty_world)))"
    using main_writer_iff [OF e, of Text empty_body_env] by blast
  then show ?thesis by (simp add: empty_body_env_def sample_response_def)
qed

text \<open>
  C7, amended. The calls of a run follow the fixed order Text, CSV, Spreadsheet, JSON, and
  fetch, save, process within a dataset. For each dataset: the writer is called if and only
  if its fetch was attempted and returned status 200 with a payload that is true in Python
  (non-empty text or bytes, a JSON value that is not falsy); the summarizer is called if and
  only if the writer was called and did not raise; and when the fetch returns another
  status, the failure line is printed and the run continues with the next dataset (after
  the last one, it returns).
\<close>

theorem main_calls_writer_and_summarizer:
  assumes "calls w = []"
  shows "subseq (calls (world_of (main env w))) pipeline_order \<and>
         (\<forall>d. ((Writer, d) \<in> set (calls (world_of (main env w))) \<longleftrightarrow>
                 (Fetcher, d) \<in> set (calls (world_of (main env w))) \<and> fetch_ok env d) \<and>
              ((Summarizer, d) \<in> set (calls (world_of (main env w))) \<longleftrightarrow>
                 (Writer, d) \<in> set (calls (world_of (main env w))) \<and>
                 \<not> (raised (main env w) \<and> last (calls (world_of (main env w))) = (Writer, d))) \<and>
              (\<forall>r. (Fetcher, d) \<in> set (calls (world_of (main env w))) \<and>
                    http_get env (url_of d) = Inr r \<and> status_code r \<noteq> 200 \<longrightarrow>
                    fetch_failure_line d (status_code r) \<in> set (stdout (world_of (main env w))) \<and>
                    (case successor d of
                       Some d' \<Rightarrow> (Fetcher, d') \<in> set (calls (world_of (main env w)))
                     | None \<Rightarrow> \<not> raised (main env w))))"
  using main_calls_in_order [OF assms, of env] main_writer_iff [OF assms, of _ env]
    main_summarizer_iff [OF assms, of _ env] main_failure_logged [OF assms, of _ env]
  by blast

theorem main_calls_writer_and_summarizer_witness:
  "calls (world_of (main sample_env empty_world)) = pipeline_order"
proof -
  have e: "calls empty_world = []" by (simp add: empty_world_def)
  let ?T = "calls (world_of (main sample_env empty_world))"
  have ok: "fetch_ok sample_env d" for d
    by (cases d) (simp_all add: fetch_ok_def)
  have f: "(Fetcher, d) \<in> set ?T" for d
    using main_completed_fetches_all [OF e sample_main_returns] .
  have m: "c \<in> set ?T" if "c \<in> set pipeline_order" for c
  proof -
    obtain st d where c: "c = (st, d)" by (cases c)
    show ?thesis
      using main_calls_writer_and_summarizer [OF e, of sample_env] f ok sample_main_returns
      unfolding c by (cases st) auto
  qed
  have s: "subseq ?T pipeline_order"
    using main_calls_writer_and_summarizer [OF e, of sample_env] by blast
  have d: "distinct pipeline_order" by (simp add: pipeline_order_def)
  have "length pipeline_order \<le> length ?T"
  proof -
    have "card (set pipeline_order) \<le> card (set ?T)"
      by (rule card_mono) (use m in auto)
    moreover have "card (set pipeline_order) = length pipeline_order"
      using d by (rule distinct_card)
    moreover have "card (set ?T) \<le> length ?T" by (rule card_length)
    ultimately show ?thesis by simp
  qed
  then show ?thesis using s by (simp add: subseq_same_length list_emb_length le_antisym)
qed

section \<open>Running the pipeline twice\<close>

lemma replayableI:
  "(\<And>w. files (world_of (m w)) = files w ++ delta \<and> outcome (m w) = v) \<Longrightarrow> replayable m"
  unfolding replayable_def by blast

lemma replayable_Return: "replayable (Return a)"
  by (rule replayableI [of _ Map.empty "Inr a"]) simp

lemma replayable_and_then:
  assumes "replayable m" and "\<And>a. replayable (f a)"
  shows "replayable (and_then m f)"
proof -
  obtain d v where m: "\<And>w. files (world_of (m w)) = files w ++ d" "\<And>w. outcome (m w) = v"
    using assms(1) unfolding replayable_def by blast
  show ?thesis
  proof (cases v)
    case (Inl e)
    have "files (world_of (and_then m f w)) = files w ++ d \<and> outcome (and_then m f w) = Inl e" for w
      using m(1) [of w] m(2) [of w] Inl by (cases "m w") (simp_all add: and_then_def)
    then show ?thesis by (rule replayableI)
  next
    case (Inr a)
    obtain d' v' where f: "\<And>w. files (world_of (f a w)) = files w ++ d'" "\<And>w. outcome (f a w) = v'"
      using assms(2) [of a] unfolding replayable_def by blast
    have "files (world_of (and_then m f w)) = files w ++ (d ++ d') \<and> outcome (and_then m f w) = v'" for w
    proof (cases "m w")
      case (Return b w1)
      then have "b = a" "files w1 = files w ++ d" using m(1) [of w] m(2) [of w] Inr by simp_all
      then show ?thesis using Return f(1) [of w1] f(2) [of w1] by (simp add: and_then_def)
    next
      case (Raise e w1)
      then show ?thesis using m(2) [of w] Inr by simp
    qed
    then show ?thesis by (rule replayableI)
  qed
qed

lemma replayable_save_process:
  assumes save: "replayable save"
      and saved: "\<And>w u w'. save w = Return u w' \<Longrightarrow> files w' p = Some c"
      and process: "\<And>w. files w p = Some c \<Longrightarrow>
             files (world_of (process w)) = files w ++ dp \<and> outcome (process w) = v"
  shows "replayable (and_then save (\<lambda>_. process))"
proof -
  obtain d vs where m: "\<And>w. files (world_of (save w)) = files w ++ d" "\<And>w. outcome (save w) = vs"
    using save unfolding replayable_def by blast
  show ?thesis
  proof (cases vs)
    case (Inl e)
    have "files (world_of (and_then save (\<lambda>_. process) w)) = files w ++ d \<and>
        outcome (and_then save (\<lambda>_. process) w) = Inl e" for w
      using m(1) [of w] m(2) [of w] Inl by (cases "save w") (simp_all add: and_then_def)
    then show ?thesis by (rule replayableI)
  next
    case (Inr a)
    have "files (world_of (and_then save (\<lambda>_. process) w)) = files w ++ (d ++ dp) \<and>
        outcome (and_then save (\<lambda>_. process) w) = v" for w
    proof (cases "save w")
      case (Return b w1)
      then have "files w1 = files w ++ d" "files w1 p = Some c"
        using m(1) [of w] saved [of w b w1] by simp_all
      then show ?thesis using Return process [of w1] by (simp add: and_then_def)
    next
      case (Raise e w1)
      then show ?thesis using m(2) [of w] Inr by simp
    qed
    then show ?thesis by (rule replayableI)
  qed
qed

lemma replayable_guarded_block:
  assumes "replayable fetch" and "\<And>c. replayable (and_then (save c) (\<lambda>_. process))"
  shows "replayable (guarded_block fetch truthy' save process)"
  unfolding guarded_block_def
  by (rule replayable_and_then [OF assms(1)]) (auto split: option.splits intro: replayable_Return assms(2))

lemma replayable_fetch_txt: "replayable (fetch_txt_data env url)"
  by (rule replayableI [of _ Map.empty "outcome (fetch_txt_data env url empty_world)"])
    (simp add: fetch_txt_data_def Let_def split: sum.splits)

lemma replayable_fetch_csv: "replayable (fetch_csv_data env url)"
  by (rule replayableI [of _ Map.empty "outcome (fetch_csv_data env url empty_world)"])
    (simp add: fetch_csv_data_def Let_def split: sum.splits)

lemma replayable_fetch_excel: "replayable (fetch_excel_data env url)"
  by (rule replayableI [of _ Map.empty "outcome (fetch_excel_data env url empty_world)"])
    (simp add: fetch_excel_data_def Let_def split: sum.splits)

lemma replayable_fetch_json: "replayable (fetch_json_data env url)"
  by (rule replayableI [of _ Map.empty "outcome (fetch_json_data env url empty_world)"])
    (simp add: fetch_json_data_def Let_def split: sum.splits)

lemma replayable_open_write_then:
  "replayable (and_then (open_write env p) (\<lambda>_ w. Return () (print_line msg (file_write p c w))))"
proof (cases "open_w env p")
  case None
  show ?thesis
    by (rule replayableI [of _ "[p \<mapsto> c]" "Inr ()"]) (simp add: and_then_def open_write_def None)
next
  case (Some e)
  show ?thesis
    by (rule replayableI [of _ Map.empty "Inl e"]) (simp add: and_then_def open_write_def Some)
qed

lemma replayable_called: "replayable m \<Longrightarrow> replayable (\<lambda>w. m (called st d w))"
  unfolding replayable_def by (metis called_simps(1))

lemma replayable_save_text: "replayable (save_text env f c)"
  unfolding save_text_def Let_def by (rule replayable_called) (rule replayable_open_write_then)

lemma replayable_save_excel: "replayable (save_excel env f c)"
  unfolding save_excel_def Let_def by (rule replayable_called) (rule replayable_open_write_then)

lemma replayable_save_json: "replayable (save_json env f c)"
  unfolding save_json_def Let_def by (rule replayable_called) (rule replayable_open_write_then)

lemma replayable_lift_exn: "replayable (lift_exn r)"
  by (cases r) (auto simp: lift_exn_def intro: replayableI [of _ Map.empty])

lemma replayable_save_csv: "replayable (save_csv env f c)"
  unfolding save_csv_def Let_def
  by (rule replayable_called)
    (intro replayable_and_then replayable_lift_exn replayable_open_write_then)


lemma saved_text: "save_text env f c w = Return u w' \<Longrightarrow> files w' (join_path ''data'' f) = Some c"
  by (auto simp: save_text_def and_then_def open_write_def data_file_def Let_def split: option.splits)

lemma saved_excel: "save_excel env f c w = Return u w' \<Longrightarrow> files w' (join_path ''data'' f) = Some c"
  by (auto simp: save_excel_def and_then_def open_write_def data_file_def Let_def split: option.splits)

lemma saved_json:
  "save_json env f c w = Return u w' \<Longrightarrow> files w' (join_path ''data'' f) = Some (json_dumps env c)"
  by (auto simp: save_json_def and_then_def open_write_def data_file_def Let_def split: option.splits)

lemma saved_csv:
  "save_csv env f c w = Return u w' \<Longrightarrow>
     files w' (join_path ''data'' f) = Some (case read_csv c of Inl e \<Rightarrow> [] | Inr df \<Rightarrow> to_csv df)"
  by (auto simp: save_csv_def and_then_def open_write_def data_file_def lift_exn_def Let_def
      split: option.splits sum.splits)

lemma report_written_delta:
  "report_written env input output oc w =
     (if files w input = None then files w else files w ++ report_delta env output oc)"
  by (auto simp: report_written_def report_delta_def split: option.splits)

lemma replayable_text_block: "replayable (text_block env)"
  unfolding text_block_guarded
proof (rule replayable_guarded_block [OF replayable_fetch_txt])
  fix c
  show "replayable (and_then (save_text env ''data.txt'' c)
      (\<lambda>_. process_text_data env ''data'' ''data.txt'' ''processed_text.txt''))"
    by (rule replayable_save_process [where v = "Inr ()" and
          dp = "report_delta env (join_path ''data'' ''processed_text.txt'') (text_outcome c)",
          OF replayable_save_text saved_text])
      (auto simp: process_text_data_files report_written_delta)
qed

lemma replayable_csv_block: "replayable (csv_block env)"
  unfolding csv_block_guarded
proof (rule replayable_guarded_block [OF replayable_fetch_csv])
  fix c
  show "replayable (and_then (save_csv env ''data.csv'' c)
      (\<lambda>_. process_csv_data env ''data'' ''data.csv'' ''processed_csv.txt''))"
    by (rule replayable_save_process [where v = "Inr ()" and
          dp = "report_delta env (join_path ''data'' ''processed_csv.txt'')
                  (csv_outcome env (case read_csv c of Inl e \<Rightarrow> [] | Inr df \<Rightarrow> to_csv df))",
          OF replayable_save_csv saved_csv])
      (auto simp: process_csv_data_files report_written_delta)
qed

lemma replayable_excel_block: "replayable (excel_block env)"
  unfolding excel_block_guarded
proof (rule replayable_guarded_block [OF replayable_fetch_excel])
  fix c
  show "replayable (and_then (save_excel env ''data.xls'' c)
      (\<lambda>_. process_excel_data env ''data'' ''data.xls'' ''processed_excel.txt''))"
    by (rule replayable_save_process [where v = "Inr ()" and
          dp = "report_delta env (join_path ''data'' ''processed_excel.txt'') (excel_outcome env c)",
          OF replayable_save_excel saved_excel])
      (auto simp: process_excel_data_files report_written_delta)
qed

lemma replayable_json_block: "replayable (json_block env)"
  unfolding json_block_guarded
proof (rule replayable_guarded_block [OF replayable_fetch_json])
  fix c
  show "replayable (and_then (save_json env ''data.json'' c)
      (\<lambda>_. process_json_data env ''data'' ''data.json'' ''processed_json.txt''))"
    by (rule replayable_save_process [where v = "Inr ()" and
          dp = "report_delta env (join_path ''data'' ''processed_json.txt'')
                  (json_outcome env (json_dumps env c))",
          OF replayable_save_json saved_json])
      (auto simp: process_json_data_files report_written_delta)
qed

lemma replayable_main: "replayable (main env)"
  unfolding main_def
  by (intro replayable_and_then replayable_text_block replayable_csv_block
      replayable_excel_block replayable_json_block)

text \<open>
  C9. A second run of \<open>main\<close> in the same environment (the same answers of the network
  and of the file system) leaves every file as the first run left it, the reports included:
  what a run writes is a function of the environment alone, each summarizer reading the
  file its writer has just saved (\<open>process_text_data_files\<close> and its siblings).
\<close>

theorem main_rerun_leaves_files_unchanged:
  "files (world_of (main env (world_of (main env w)))) = files (world_of (main env w))"
proof -
  obtain d v where "\<And>w. files (world_of (main env w)) = files w ++ d"
    using replayable_main [of env] unfolding replayable_def by blast
  then have "files (world_of (main env (world_of (main env w)))) = (files w ++ d) ++ d"
    and "files (world_of (main env w)) = files w ++ d"
    by simp_all
  then show ?thesis by (simp add: fun_eq_iff map_add_def split: option.splits)
qed

theorem main_rerun_leaves_files_unchanged_witness:
  "files (world_of (main sample_env (world_of (main sample_env empty_world))))
     = files (world_of (main sample_env empty_world))"
  by (rule main_rerun_leaves_files_unchanged)

section \<open>The statistics of the tabular summarizers\<close>

lemma update_same:
  "k \<in> set ks \<Longrightarrow> AList.update k (f k) (map (\<lambda>k. (k, f k)) ks) = map (\<lambda>k. (k, f k)) ks"
  by (induction ks) auto

lemma update_new:
  "k \<notin> set ks \<Longrightarrow> AList.update k v (map (\<lambda>k. (k, f k)) ks) = map (\<lambda>k. (k, f k)) ks @ [(k, v)]"
  by (induction ks) auto

lemma first_seen_snoc:
  "first_seen (ks @ [k]) = (if k \<in> set ks then first_seen ks else first_seen ks @ [k])"
  by (induction ks) auto

lemma fold_update_first_seen:
  "fold (\<lambda>k stats. AList.update k (f k) stats) ks [] = map (\<lambda>k. (k, f k)) (first_seen ks)"
proof (induction ks rule: rev_induct)
  case Nil
  then show ?case by simp
next
  case (snoc k ks)
  show ?case
  proof (cases "k \<in> set ks")
    case True
    then have "k \<in> set (first_seen ks)" by simp
    then show ?thesis using snoc True by (simp add: first_seen_snoc update_same)
  next
    case False
    then have "k \<notin> set (first_seen ks)" by simp
    then show ?thesis using snoc False by (simp add: first_seen_snoc update_new)
  qed
qed



lemma compute_stats_eq:
  "compute_stats env df =
     map (\<lambda>c. (c, metrics env (get_column df c))) (first_seen (select_dtypes_number env df))"
  unfolding compute_stats_def by (rule fold_update_first_seen)



lemma process_csv_data_report:
  assumes "files w (join_path folder filename) = Some content" "read_csv content = Inr df"
      and "open_w env (join_path folder processed) = None"
  shows "files (world_of (process_csv_data env folder filename processed w)) (join_path folder processed)
           = Some (csv_report env df)"
  using assms by (simp add: process_csv_data_files report_written_def csv_outcome_def)

lemma process_excel_data_report:
  assumes "files w (join_path folder filename) = Some content" "read_excel env content = Inr df"
      and "open_w env (join_path folder processed) = None"
  shows "files (world_of (process_excel_data env folder filename processed w)) (join_path folder processed)
           = Some (excel_report env df)"
  using assms by (simp add: process_excel_data_files report_written_def excel_outcome_def)

lemma csv_report_ne_excel_report: "csv_report env df \<noteq> excel_report env df'"
proof -
  have "excel_report env df' = [] \<or> hd (excel_report env df') = CHR ''S''"
    by (cases "compute_stats env df'") (auto simp: excel_report_def)
  moreover have "csv_report env df \<noteq> []" "hd (csv_report env df) = CHR ''R''"
    by (simp_all add: csv_report_def)
  ultimately show ?thesis by auto
qed

lemma sample_table_parsed:
  "read_csv ''n,s\<newline>5,a\<newline>'' = Inr sample_table" "read_excel sample_env ''xls'' = Inr sample_table"
  by (simp_all add: read_csv_def text_lines_def cell_of_def sample_table_def sample_env_def)

text \<open>
  C2, as stated, fails: for the same table, read once from CSV and once from the spreadsheet,
  the two reports are different texts.
\<close>

theorem csv_and_excel_reports_differ:
  "read_csv ''n,s\<newline>5,a\<newline>'' = read_excel sample_env ''xls'' \<and>
   files (world_of (process_csv_data sample_env ''data'' ''data.csv'' ''processed_csv.txt''
        sample_tables_world)) ''data/processed_csv.txt''
     \<noteq> files (world_of (process_excel_data sample_env ''data'' ''data.xls'' ''processed_excel.txt''
        sample_tables_world)) ''data/processed_excel.txt''"
proof -
  have c: "files sample_tables_world (join_path ''data'' ''data.csv'') = Some ''n,s\<newline>5,a\<newline>''"
    and x: "files sample_tables_world (join_path ''data'' ''data.xls'') = Some ''xls''"
    by (simp_all add: sample_tables_world_def join_path_def)
  have o: "open_w sample_env p = None" for p by simp
  show ?thesis
    using process_csv_data_report [OF c sample_table_parsed(1) o, of "''processed_csv.txt''"]
      process_excel_data_report [OF x sample_table_parsed(2) o, of "''processed_excel.txt''"]
      csv_report_ne_excel_report [of sample_env sample_table sample_table]
    by (simp add: sample_table_parsed join_path_def)
qed

text \<open>
  C2, amended. When the CSV parser and the spreadsheet parser yield the same table, the two
  summarizers report the same statistics: the same columns in the same order, each with the
  same metric lines. The texts are not identical: the CSV report starts with the section
  \<open>Rows as tuples:\<close> and the header \<open>Statistics for numeric columns:\<close> and heads each
  column with an empty line and \<open>column:\<close>; the spreadsheet report has no rows section and
  heads each column with \<open>Statistics for column:\<close>.
\<close>

theorem csv_and_excel_reports_share_statistics:
  assumes "files w (join_path folder csv_name) = Some csv_content"
      and "read_csv csv_content = Inr df"
      and "files w (join_path folder xls_name) = Some xls_content"
      and "read_excel env xls_content = Inr df"
      and "open_w env (join_path folder csv_out) = None"
      and "open_w env (join_path folder xls_out) = None"
  shows "files (world_of (process_csv_data env folder csv_name csv_out w)) (join_path folder csv_out) =
           Some (''Rows as tuples:\<newline>'' @
                 concat (map (\<lambda>row. str_tuple env row @ ''\<newline>'') (rows df)) @
                 ''\<newline>Statistics for numeric columns:\<newline>'' @
                 concat (map (\<lambda>(column, ms). ''\<newline>'' @ column @ '':\<newline>'' @ metrics_text env ms)
                           (compute_stats env df))) \<and>
         files (world_of (process_excel_data env folder xls_name xls_out w)) (join_path folder xls_out) =
           Some (concat (map (\<lambda>(column, ms). ''Statistics for '' @ column @ '':\<newline>'' @ metrics_text env ms)
                           (compute_stats env df))) \<and>
         files (world_of (process_csv_data env folder csv_name csv_out w)) (join_path folder csv_out) \<noteq>
         files (world_of (process_excel_data env folder xls_name xls_out w)) (join_path folder xls_out)"
  using process_csv_data_report [OF assms(1,2,5)] process_excel_data_report [OF assms(3,4,6)]
    csv_report_ne_excel_report [of env df df]
  by (simp add: csv_report_def excel_report_def)

lemma sample_numbers_simps [simp]:
  "sample_numbers ''1'' = Some (IntN 1)" "sample_numbers ''2'' = Some (IntN 2)"
  "sample_numbers ''3'' = Some (IntN 3)" "sample_numbers ''4'' = Some (IntN 4)"
  "sample_numbers ''5'' = Some (IntN 5)" "sample_numbers ''a'' = None"
  by (simp_all add: sample_numbers_def)

lemma sample_env_params [simp]:
  "parse_number sample_env = sample_numbers" "str_float sample_env = sample_float"
  "str_tuple sample_env r = ''('' @ join_with CHR '','' (map cell_text r) @ '')''"
  by (simp_all add: sample_env_def)

lemma sample_float_simps [simp]:
  "sample_float 5 = ''5.0''" "sample_float (5 / 2) = ''2.5''"
  by (simp_all add: sample_float_def)

lemma str_int_digits [simp]:
  "str_int 1 = ''1''" "str_int 4 = ''4''" "str_int 5 = ''5''"
  by (simp_all add: str_int_def str_nat_digit digit_char_def)

lemma sample_table_columns [simp]:
  "get_column sample_table ''n'' = [Some ''5'']" "get_column sample_table ''s'' = [Some ''a'']"
  by (simp_all add: get_column_def columns_of_def sample_table_def cell_at_def)

lemma sample_table_numeric: "select_dtypes_number sample_env sample_table = [''n'']"
  by (simp add: select_dtypes_number_def columns_of_def sample_table_def cell_at_def
      is_numeric_def parses_def)

lemma sample_column_metrics:
  "metrics sample_env [Some ''5''] =
     [(''Mean'', FloatStat 5), (''Median'', FloatStat 5), (''Standard Deviation'', NaN),
      (''Max'', IntStat 5), (''Min'', IntStat 5)]"
  by (simp add: metrics_def numbers_def List.map_filter_simps mean_def median_def std_def
      float_stat_def extreme_stat_def integer_column_def)

lemma sample_table_stats:
  "compute_stats sample_env sample_table =
     [(''n'', [(''Mean'', FloatStat 5), (''Median'', FloatStat 5), (''Standard Deviation'', NaN),
               (''Max'', IntStat 5), (''Min'', IntStat 5)])]"
  by (simp add: compute_stats_eq sample_table_numeric sample_column_metrics)

theorem csv_and_excel_reports_share_statistics_witness:
  "files (world_of (process_csv_data sample_env ''data'' ''data.csv'' ''processed_csv.txt''
        sample_tables_world)) ''data/processed_csv.txt'' =
     Some ''Rows as tuples:\<newline>(5,a)\<newline>\<newline>Statistics for numeric columns:\<newline>\<newline>n:\<newline>Mean: 5.0\<newline>Median: 5.0\<newline>Standard Deviation: nan\<newline>Max: 5\<newline>Min: 5\<newline>'' \<and>
   files (world_of (process_excel_data sample_env ''data'' ''data.xls'' ''processed_excel.txt''
        sample_tables_world)) ''data/processed_excel.txt'' =
     Some ''Statistics for n:\<newline>Mean: 5.0\<newline>Median: 5.0\<newline>Standard Deviation: nan\<newline>Max: 5\<newline>Min: 5\<newline>''"
proof -
  have c: "files sample_tables_world (join_path ''data'' ''data.csv'') = Some ''n,s\<newline>5,a\<newline>''"
    and x: "files sample_tables_world (join_path ''data'' ''data.xls'') = Some ''xls''"
    by (simp_all add: sample_tables_world_def join_path_def)
  have o: "open_w sample_env p = None" for p by simp
  show ?thesis
    using csv_and_excel_reports_share_statistics [OF c sample_table_parsed(1) x sample_table_parsed(2) o o,
        of "''processed_csv.txt''" "''processed_excel.txt''"]
    by (simp add: sample_table_stats metrics_text_def str_stat_def join_path_def cell_text_def
        sample_table_def [THEN arg_cong, of rows])
qed



section \<open>Mean, median, standard deviation, max and min\<close>




lemma sqrt_five_thirds: "1.2909944 < sqrt (5 / 3 :: real)" "sqrt (5 / 3 :: real) < 1.2909945"
proof -
  show "1.2909944 < sqrt (5 / 3 :: real)"
    by (rule real_less_rsqrt) (simp add: power2_eq_square)
  show "sqrt (5 / 3 :: real) < 1.2909945"
    by (rule real_less_lsqrt) (simp_all add: power2_eq_square)
qed



lemma sample_float_sqrt [simp]: "sample_float (sqrt (5 / 3)) = ''1.2909944487358056''"
proof -
  have "sqrt (5 / 3 :: real) \<noteq> 5" "sqrt (5 / 3 :: real) \<noteq> 5 / 2"
    using sqrt_five_thirds(2) by auto
  then show ?thesis using sqrt_five_thirds by (simp add: sample_float_def)
qed




section \<open>Saving CSV content\<close>

lemma split_on_nonempty [simp]: "split_on c s \<noteq> []"
  by (induction s) (auto split: list.splits)

lemma split_on_fields: "f \<in> set (split_on c s) \<Longrightarrow> c \<notin> set f"
  by (induction s arbitrary: f) (auto split: list.splits if_splits)

lemma join_with_split_on: "join_with c (split_on c s) = s"
proof (induction s)
  case Nil
  then show ?case by simp
next
  case (Cons x s)
  show ?case
  proof (cases "x = c")
    case True
    then show ?thesis using Cons by (cases "split_on c s") simp_all
  next
    case False
    then show ?thesis using Cons
      by (cases "split_on c s"; cases "tl (split_on c s)") auto
  qed
qed

lemma split_on_append_sep:
  "c \<notin> set l \<Longrightarrow> split_on c (l @ c # s) = l # split_on c s"
  by (induction l) (auto split: list.splits)

lemma split_on_lines:
  "\<forall>l \<in> set ls. c \<notin> set l \<Longrightarrow> split_on c (concat (map (\<lambda>l. l @ [c]) ls)) = ls @ [[]]"
  by (induction ls) (simp_all add: split_on_append_sep)

lemma text_lines_unlines:
  assumes "\<forall>l \<in> set ls. CHR 0x0A \<notin> set l"
  shows "text_lines (concat (map (\<lambda>l. l @ ''\<newline>'') ls)) = ls"
  using split_on_lines [OF assms] by (simp add: text_lines_def)

lemma text_lines_no_newline: "l \<in> set (text_lines s) \<Longrightarrow> CHR 0x0A \<notin> set l"
  using split_on_fields [of l "CHR 0x0A" s]
  by (auto simp: text_lines_def Let_def split: if_splits dest: in_set_butlastD)

lemma cell_text_cell_of [simp]: "cell_text (cell_of s) = s"
  by (simp add: cell_text_def cell_of_def)

text \<open>Serializing a parsed table gives back the lines of the input.\<close>

lemma to_csv_read_csv:
  assumes "read_csv content = Inr df"
  shows "to_csv df = concat (map (\<lambda>l. l @ ''\<newline>'') (text_lines content))"
proof -
  obtain header body where l: "text_lines content = header # body"
    using assms by (cases "text_lines content") (simp_all add: read_csv_def)
  have df: "df = \<lparr>columns = split_on CHR '','' header,
               rows = map (\<lambda>l. map cell_of (split_on CHR '','' l)) body\<rparr>"
    using assms l by (simp add: read_csv_def)
  show ?thesis
    by (simp add: to_csv_def df l comp_def join_with_split_on)
qed

lemma read_csv_to_csv:
  assumes "read_csv content = Inr df"
  shows "read_csv (to_csv df) = Inr df"
proof -
  have "text_lines (to_csv df) = text_lines content"
    unfolding to_csv_read_csv [OF assms]
    by (rule text_lines_unlines) (auto dest: text_lines_no_newline)
  then show ?thesis using assms by (simp add: read_csv_def)
qed

lemma read_csv_shape:
  assumes "read_csv content = Inr df"
  shows "columns df = split_on CHR '','' (hd (text_lines content))"
    and "rows df = map (\<lambda>l. map cell_of (split_on CHR '','' l)) (tl (text_lines content))"
    and "length (rows df) = length (text_lines content) - 1"
  using assms by (cases "text_lines content"; auto simp: read_csv_def)+

text \<open>
  C8. When the CSV content parses to a table, \<open>save_csv\<close> writes a file that parses to the
  same table: the first line gives the columns in their order, every further line is a row,
  duplicates included. The number of rows is the number of input lines minus the header, and
  the report of the CSV summarizer on the saved file has one tuple line per row.
\<close>

theorem save_csv_preserves_table:
  assumes "read_csv content = Inr df"
      and "open_w env (join_path ''data'' filename) = None"
      and "open_w env (join_path ''data'' processed) = None"
  shows "\<exists>w1. save_csv env filename content w = Return () w1 \<and>
           files w1 (join_path ''data'' filename) = Some (to_csv df) \<and>
           read_csv (to_csv df) = Inr df \<and>
           columns df = split_on CHR '','' (hd (text_lines content)) \<and>
           rows df = map (\<lambda>l. map cell_of (split_on CHR '','' l)) (tl (text_lines content)) \<and>
           length (rows df) = length (text_lines content) - 1 \<and>
           files (world_of (process_csv_data env ''data'' filename processed w1)) (join_path ''data'' processed) =
             Some (''Rows as tuples:\<newline>'' @
                   concat (map (\<lambda>row. str_tuple env row @ ''\<newline>'') (rows df)) @
                   ''\<newline>Statistics for numeric columns:\<newline>'' @
                   concat (map (\<lambda>(column, ms). ''\<newline>'' @ column @ '':\<newline>'' @ metrics_text env ms)
                             (compute_stats env df)))"
proof -
  obtain w1 where s: "save_csv env filename content w = Return () w1"
    "files w1 (join_path ''data'' filename) = Some (to_csv df)"
    using assms(1,2)
    by (simp add: save_csv_def and_then_def lift_exn_def open_write_def data_file_def Let_def)
  have "files (world_of (process_csv_data env ''data'' filename processed w1)) (join_path ''data'' processed)
      = Some (csv_report env df)"
    by (rule process_csv_data_report [OF s(2) read_csv_to_csv [OF assms(1)] assms(3)])
  then show ?thesis
    using s read_csv_to_csv [OF assms(1)] read_csv_shape [OF assms(1)]
    by (simp add: csv_report_def)
qed

theorem save_csv_preserves_table_witness:
  "\<exists>w1. save_csv sample_env ''data.csv'' ''n,s\<newline>1,a\<newline>1,a\<newline>'' empty_world = Return () w1 \<and>
     files w1 ''data/data.csv'' = Some ''n,s\<newline>1,a\<newline>1,a\<newline>'' \<and>
     read_csv ''n,s\<newline>1,a\<newline>1,a\<newline>'' =
       Inr \<lparr>columns = [''n'', ''s''], rows = [[Some ''1'', Some ''a''], [Some ''1'', Some ''a'']]\<rparr> \<and>
     length (text_lines ''n,s\<newline>1,a\<newline>1,a\<newline>'') - 1 = 2"
proof -
  have o: "open_w sample_env p = None" for p by simp
  show ?thesis
    using save_csv_preserves_table [where env = sample_env and filename = "''data.csv''" and
        processed = "''processed_csv.txt''" and w = empty_world, OF sample_read_csv o o]
    by (auto simp: sample_read_csv to_csv_def cell_text_def join_path_def)
qed

end
